theory Spec2Isabelle
  imports Complex_Main "HOL-Library.Word"
begin

unbundle bit_operations_syntax

section \<open>Values shared by the core components\<close>

text \<open>
  A \<open>Buffer\<close> is a list of bytes. A JavaScript string is a sequence of UTF-16 code units;
  text that the program analyses or encrypts is modelled as the list of its code units
  (natural numbers below \<open>2 ^ 16\<close>). File names, paths and error codes, which the program
  only builds, compares and cuts, are Isabelle strings.
\<close>

type_synonym byte = "8 word"
type_synonym buffer = "byte list"
type_synonym jsstring = "nat list"

text \<open>The \<open>code\<close> of a \<open>NodeJS.ErrnoException\<close>.\<close>

datatype errno = ENOENT | ENOSPC | EACCES | EISDIR | ENOTDIR | EIO

text \<open>
  \<open>utils/errors.ts\<close>: \<open>EncryptionError\<close> and \<open>StorageError\<close> carry a code, which the
  constructors prefix with \<open>ENCRYPTION_\<close> and \<open>STORAGE_\<close>; the message is left out.
  A system error that escapes unwrapped is an \<open>ErrnoException\<close>; a \<open>RangeError\<close> is what the
  engine and the platform throw for an argument outside the range they accept, and
  \<open>StringTooLong\<close> (\<open>ERR_STRING_TOO_LONG\<close>) what \<open>Buffer\<close> throws instead of building a string
  longer than the engine's longest.
\<close>

datatype encryption_code =
  INIT_FAILED | INVALID_KEY_SIZE | KEY_NOT_INITIALIZED | ENCRYPTION_FAILED
  | DECRYPTION_FAILED | INVALID_ENCRYPTED_DATA

datatype storage_code =
  STORAGE_INIT_FAILED | EMPTY_DATA | STORAGE_FULL | SAVE_FAILED | READ_FAILED | LIST_FAILED

datatype error =
  EncryptionError encryption_code
  | StorageError storage_code
  | ErrnoException errno
  | RangeError
  | StringTooLong

section \<open>Storage: \<open>core/storage.ts\<close>\<close>

subsection \<open>Records of \<open>core/types.ts\<close>\<close>

record StoredThought =
  id_st :: string
  filepath :: string
  timestamp :: real
  sizeBytes :: nat

record StorageStats =
  count_st :: nat
  totalSizeBytes :: nat
  oldestTimestamp :: real
  newestTimestamp :: real

subsection \<open>The file system seen by the storage manager\<close>

text \<open>
  The private directory is either missing or holds named files, in the order \<open>readdir\<close>
  reports them. A file has its bytes and the modification time (\<open>mtimeMs\<close>, milliseconds,
  possibly fractional) that the file system gave it.
\<close>

record file_node =
  content :: buffer
  mtimeMs :: real

type_synonym directory = "(string \<times> file_node) list option"

text \<open>
  What the outside world decides while the directory is listed: a fault of \<open>readdir\<close>,
  a fault of \<open>stat\<close> for each path, and the number of arguments that the engine accepts
  in one call (it depends on the stack that is left).
\<close>

record fs_env =
  readdir_fault :: "errno option"
  stat_fault :: "string \<Rightarrow> errno option"
  argument_limit :: nat

text \<open>The reading of \<open>new Date()\<close>, given by its calendar fields in UTC.\<close>

record utc_date =
  utc_year :: int
  utc_month :: nat
  utc_day :: nat
  utc_hours :: nat
  utc_minutes :: nat
  utc_seconds :: nat
  utc_milliseconds :: nat

text \<open>
  What the outside world decides during one save: faults of \<open>mkdir\<close> and \<open>writeFile\<close>,
  and three clock readings: \<open>new Date()\<close> for the file name, the modification time the
  file system stamps on the written file, and \<open>Date.now()\<close> for the returned record.
\<close>

record save_env =
  mkdir_fault :: "errno option"
  write_fault :: "errno option"
  date_new :: utc_date
  write_mtime :: real
  date_now :: int

record fs_stats =
  st_mtimeMs :: real
  st_size :: nat

subsection \<open>\<open>path\<close>, \<open>String\<close> and \<open>Date\<close> helpers of the platform\<close>

definition endsWith :: "string \<Rightarrow> string \<Rightarrow> bool" where
  "endsWith s suffix \<longleftrightarrow>
     length suffix \<le> length s \<and> drop (length s - length suffix) s = suffix"

text \<open>
  \<open>path.normalize\<close> on a POSIX platform. The path is cut at every \<open>/\<close>; an empty segment
  and \<open>.\<close> are dropped, and \<open>..\<close> removes the segment before it, or stays when there is
  none to remove and the path is relative. A leading and a trailing \<open>/\<close> are kept.
\<close>

fun splitSlash :: "string \<Rightarrow> string list" where
  "splitSlash [] = [[]]"
| "splitSlash (c # cs) =
     (if c = CHR ''/'' then [] # splitSlash cs
      else (c # hd (splitSlash cs)) # tl (splitSlash cs))"

fun normalizeString :: "bool \<Rightarrow> string list \<Rightarrow> string list \<Rightarrow> string list" where
  "normalizeString allowAboveRoot res [] = rev res"
| "normalizeString allowAboveRoot res (s # ss) =
     (if s = [] \<or> s = ''.'' then normalizeString allowAboveRoot res ss
      else if s = ''..'' then
        (if res \<noteq> [] \<and> hd res \<noteq> ''..'' then normalizeString allowAboveRoot (tl res) ss
         else if allowAboveRoot then normalizeString allowAboveRoot (''..'' # res) ss
         else normalizeString allowAboveRoot res ss)
      else normalizeString allowAboveRoot (s # res) ss)"

fun joinSlash :: "string list \<Rightarrow> string" where
  "joinSlash [] = []"
| "joinSlash [s] = s"
| "joinSlash (s # t # ss) = s @ ''/'' @ joinSlash (t # ss)"

definition path_normalize :: "string \<Rightarrow> string" where
  "path_normalize p =
     (if p = [] then ''.''
      else let isAbsolute = (hd p = CHR ''/'');
               trailingSeparator = (last p = CHR ''/'');
               q = joinSlash (normalizeString (\<not> isAbsolute) [] (splitSlash p))
           in if q = [] then (if isAbsolute then ''/'' else if trailingSeparator then ''./'' else ''.'')
              else (if isAbsolute then ''/'' else []) @ q @ (if trailingSeparator then ''/'' else []))"

text \<open>
  \<open>path.join(dir, name)\<close> where \<open>name\<close> is the name of a directory entry: not empty,
  without \<open>/\<close>, and neither \<open>.\<close> nor \<open>..\<close>. The result is the normalised directory, a
  separator unless the directory ends with one, and the name; an empty directory and one
  that normalises to \<open>.\<close> add nothing to the name.
\<close>

definition path_join :: "string \<Rightarrow> string \<Rightarrow> string" where
  "path_join dir name =
     (if dir = [] then name
      else let n = path_normalize dir
           in if n = ''.'' \<or> n = ''./'' then name
              else if last n = CHR ''/'' then n @ name
              else n @ ''/'' @ name)"

text \<open>\<open>path.basename(p)\<close>: the last segment, trailing slashes dropped.\<close>

definition basename :: "string \<Rightarrow> string" where
  "basename p =
     rev (takeWhile (\<lambda>c. c \<noteq> CHR ''/'') (dropWhile (\<lambda>c. c = CHR ''/'') (rev p)))"

text \<open>
  \<open>path.basename(p, ext)\<close>: the extension is cut from the last segment, except that a
  segment equal to the extension is kept whole unless it is the whole path, which gives
  the empty string.
\<close>

definition basename_ext :: "string \<Rightarrow> string \<Rightarrow> string" where
  "basename_ext p ext =
     (if ext \<noteq> [] \<and> length ext \<le> length p then
        (if ext = p then []
         else let b = basename p
              in if endsWith b ext \<and> b \<noteq> ext then take (length b - length ext) b else b)
      else basename p)"

text \<open>
  \<open>Date.prototype.toISOString\<close>: \<open>YYYY-MM-DDTHH:mm:ss.sssZ\<close>, with a sign and six
  digits for a year outside \<open>0 .. 9999\<close>.
\<close>

definition digit_char :: "nat \<Rightarrow> char" where
  "digit_char d = ''0123456789'' ! (d mod 10)"

fun pad :: "nat \<Rightarrow> nat \<Rightarrow> string" where
  "pad 0 n = []"
| "pad (Suc w) n = pad w (n div 10) @ [digit_char n]"

definition toISOString :: "utc_date \<Rightarrow> string" where
  "toISOString dt =
     (if 0 \<le> utc_year dt \<and> utc_year dt \<le> 9999 then pad 4 (nat (utc_year dt))
      else (if utc_year dt < 0 then ''-'' else ''+'') @ pad 6 (nat \<bar>utc_year dt\<bar>))
     @ ''-'' @ pad 2 (utc_month dt) @ ''-'' @ pad 2 (utc_day dt)
     @ ''T'' @ pad 2 (utc_hours dt) @ '':'' @ pad 2 (utc_minutes dt)
     @ '':'' @ pad 2 (utc_seconds dt) @ ''.'' @ pad 3 (utc_milliseconds dt) @ ''Z''"

subsection \<open>System calls\<close>

definition fs_readdir :: "fs_env \<Rightarrow> directory \<Rightarrow> errno + string list" where
  "fs_readdir env d =
     (case readdir_fault env of
        Some e \<Rightarrow> Inl e
      | None \<Rightarrow> (case d of None \<Rightarrow> Inl ENOENT | Some entries \<Rightarrow> Inr (map fst entries)))"

definition fs_stat :: "fs_env \<Rightarrow> string \<Rightarrow> directory \<Rightarrow> string \<Rightarrow> errno + fs_stats" where
  "fs_stat env privateDir d path =
     (case stat_fault env path of
        Some e \<Rightarrow> Inl e
      | None \<Rightarrow>
         (case d of
            None \<Rightarrow> Inl ENOENT
          | Some entries \<Rightarrow>
             (case map_of (map (\<lambda>(n, f). (path_join privateDir n, f)) entries) path of
                None \<Rightarrow> Inl ENOENT
              | Some f \<Rightarrow> Inr \<lparr>st_mtimeMs = mtimeMs f, st_size = length (content f)\<rparr>)))"

text \<open>\<open>access\<close> throws when the directory is missing; \<open>mkdir\<close> is recursive.\<close>

definition ensurePrivateDirectory :: "save_env \<Rightarrow> directory \<Rightarrow> errno + directory" where
  "ensurePrivateDirectory env d =
     (case d of
        Some entries \<Rightarrow> Inr d
      | None \<Rightarrow> (case mkdir_fault env of Some e \<Rightarrow> Inl e | None \<Rightarrow> Inr (Some [])))"

text \<open>Writing a file replaces the entry of that name, or adds one.\<close>

fun upsert :: "string \<Rightarrow> file_node \<Rightarrow> (string \<times> file_node) list \<Rightarrow> (string \<times> file_node) list" where
  "upsert name node [] = [(name, node)]"
| "upsert name node ((n, f) # es) =
     (if n = name then (name, node) # es else (n, f) # upsert name node es)"

definition fs_writeFile :: "save_env \<Rightarrow> directory \<Rightarrow> string \<Rightarrow> buffer \<Rightarrow> errno + directory" where
  "fs_writeFile env d path data =
     (case write_fault env of
        Some e \<Rightarrow> Inl e
      | None \<Rightarrow>
         (case d of
            None \<Rightarrow> Inl ENOENT
          | Some entries \<Rightarrow>
              Inr (Some (upsert (basename path)
                           \<lparr>content = data, mtimeMs = write_mtime env\<rparr> entries))))"

subsection \<open>\<open>generateFilename\<close> and \<open>saveEncryptedThought\<close>\<close>

definition generateFilename :: "utc_date \<Rightarrow> string" where
  "generateFilename now =
     (let timestamp = take 14 (filter (\<lambda>c. c \<notin> set ''-:T.Z'') (toISOString now))
      in ''private_thought_'' @ timestamp @ ''.enc'')"

text \<open>The \<open>catch\<close> of \<open>saveEncryptedThought\<close> for an error that is no \<open>StorageError\<close>.\<close>

definition saveError :: "errno \<Rightarrow> error" where
  "saveError e = (if e = ENOSPC then StorageError STORAGE_FULL else StorageError SAVE_FAILED)"

definition saveEncryptedThought ::
  "save_env \<Rightarrow> string \<Rightarrow> directory \<Rightarrow> buffer \<Rightarrow> error + StoredThought \<times> directory" where
  "saveEncryptedThought env privateDir d encryptedData =
     (if encryptedData = [] then Inl (StorageError EMPTY_DATA)
      else case ensurePrivateDirectory env d of
        Inl e \<Rightarrow> Inl (saveError e)
      | Inr d1 \<Rightarrow>
         (let filename = generateFilename (date_new env);
              filepath = path_join privateDir filename
          in case fs_writeFile env d1 filepath encryptedData of
               Inl e \<Rightarrow> Inl (saveError e)
             | Inr d2 \<Rightarrow>
                 Inr (\<lparr>id_st = basename_ext filename ''.enc'', filepath = filepath,
                       timestamp = real_of_int (date_now env),
                       sizeBytes = length encryptedData\<rparr>, d2)))"

subsection \<open>\<open>getSavedFiles\<close>, \<open>getThoughtMetadata\<close>, \<open>getStorageStats\<close>\<close>

definition getSavedFiles :: "fs_env \<Rightarrow> string \<Rightarrow> directory \<Rightarrow> error + string list" where
  "getSavedFiles env privateDir d =
     (case fs_readdir env d of
        Inr files \<Rightarrow>
          Inr (map (path_join privateDir) (filter (\<lambda>file. endsWith file ''.enc'') files))
      | Inl e \<Rightarrow> if e = ENOENT then Inr [] else Inl (StorageError LIST_FAILED))"

text \<open>The loop of \<open>getThoughtMetadata\<close>: a file whose \<open>stat\<close> throws is logged and skipped.\<close>

fun collectMetadata :: "fs_env \<Rightarrow> string \<Rightarrow> directory \<Rightarrow> string list \<Rightarrow> StoredThought list" where
  "collectMetadata env privateDir d [] = []"
| "collectMetadata env privateDir d (fp # rest) =
     (case fs_stat env privateDir d fp of
        Inr stats \<Rightarrow>
          \<lparr>id_st = basename_ext (basename fp) ''.enc'', filepath = fp,
            timestamp = st_mtimeMs stats, sizeBytes = st_size stats\<rparr>
          # collectMetadata env privateDir d rest
      | Inl e \<Rightarrow> collectMetadata env privateDir d rest)"

text \<open>
  \<open>Array.prototype.sort\<close> with a comparator is a stable sort: an element goes before the
  first element it does not compare greater than.
\<close>

fun js_insert :: "('a \<Rightarrow> 'a \<Rightarrow> real) \<Rightarrow> 'a \<Rightarrow> 'a list \<Rightarrow> 'a list" where
  "js_insert cmp x [] = [x]"
| "js_insert cmp x (y # ys) = (if cmp x y \<le> 0 then x # y # ys else y # js_insert cmp x ys)"

definition js_sort :: "('a \<Rightarrow> 'a \<Rightarrow> real) \<Rightarrow> 'a list \<Rightarrow> 'a list" where
  "js_sort cmp xs = foldr (js_insert cmp) xs []"

definition newestFirst :: "StoredThought \<Rightarrow> StoredThought \<Rightarrow> real" where
  "newestFirst a b = timestamp b - timestamp a"

definition getThoughtMetadata :: "fs_env \<Rightarrow> string \<Rightarrow> directory \<Rightarrow> error + StoredThought list" where
  "getThoughtMetadata env privateDir d =
     (case getSavedFiles env privateDir d of
        Inl e \<Rightarrow> Inl e
      | Inr filePaths \<Rightarrow> Inr (js_sort newestFirst (collectMetadata env privateDir d filePaths)))"

text \<open>
  \<open>Math.min(...timestamps)\<close> and \<open>Math.max(...timestamps)\<close> pass every element of the
  array as one argument of a single call. The engine throws a \<open>RangeError\<close> when there are
  more arguments than it accepts; up to there the result is a fold over the arguments.
  The program calls them on a list with a first element only.
\<close>

definition math_min :: "nat \<Rightarrow> real \<Rightarrow> real list \<Rightarrow> error + real" where
  "math_min limit t ts = (if limit < length (t # ts) then Inl RangeError else Inr (fold min ts t))"

definition math_max :: "nat \<Rightarrow> real \<Rightarrow> real list \<Rightarrow> error + real" where
  "math_max limit t ts = (if limit < length (t # ts) then Inl RangeError else Inr (fold max ts t))"

text \<open>
  The body of \<open>getStorageStats\<close> after the listing. It has no \<open>try\<close>: an error of the two
  calls escapes as it is.
\<close>

definition statsOf :: "nat \<Rightarrow> StoredThought list \<Rightarrow> error + StorageStats" where
  "statsOf limit thoughts =
     (if length thoughts = 0
      then Inr \<lparr>count_st = 0, totalSizeBytes = 0, oldestTimestamp = 0, newestTimestamp = 0\<rparr>
      else let totalSizeBytes = fold (\<lambda>thought sum. sum + sizeBytes thought) thoughts 0;
               timestamps = map timestamp thoughts
           in case math_min limit (hd timestamps) (tl timestamps) of
                Inl e \<Rightarrow> Inl e
              | Inr oldest \<Rightarrow>
                 (case math_max limit (hd timestamps) (tl timestamps) of
                    Inl e \<Rightarrow> Inl e
                  | Inr newest \<Rightarrow>
                      Inr \<lparr>count_st = length thoughts, totalSizeBytes = totalSizeBytes,
                           oldestTimestamp = oldest, newestTimestamp = newest\<rparr>))"

definition getStorageStats :: "fs_env \<Rightarrow> string \<Rightarrow> directory \<Rightarrow> error + StorageStats" where
  "getStorageStats env privateDir d =
     (case getThoughtMetadata env privateDir d of
        Inl e \<Rightarrow> Inl e
      | Inr thoughts \<Rightarrow> statsOf (argument_limit env) thoughts)"

subsection \<open>Notions used in the statements\<close>

text \<open>The record that \<open>getThoughtMetadata\<close> builds from a path and its \<open>stat\<close> result.\<close>

definition metadataOf :: "string \<Rightarrow> fs_stats \<Rightarrow> StoredThought" where
  "metadataOf fp stats =
     \<lparr>id_st = basename_ext (basename fp) ''.enc'', filepath = fp,
      timestamp = st_mtimeMs stats, sizeBytes = st_size stats\<rparr>"

text \<open>The entries of a directory whose name ends with \<open>.enc\<close>.\<close>

definition encEntries :: "(string \<times> file_node) list \<Rightarrow> (string \<times> file_node) list" where
  "encEntries entries = filter (\<lambda>(n, f). endsWith n ''.enc'') entries"

definition newestFirstOrder :: "StoredThought list \<Rightarrow> bool" where
  "newestFirstOrder ts = sorted_wrt (\<lambda>a b. timestamp a \<ge> timestamp b) ts"

definition zeroStats :: StorageStats where
  "zeroStats = \<lparr>count_st = 0, totalSizeBytes = 0, oldestTimestamp = 0, newestTimestamp = 0\<rparr>"

subsection \<open>Example values\<close>

text \<open>No fault, on an engine that accepts 125000 arguments in a call.\<close>

definition noFaults :: fs_env where
  "noFaults = \<lparr>readdir_fault = None, stat_fault = (\<lambda>p. None), argument_limit = 125000\<rparr>"

definition exampleEntries :: "(string \<times> file_node) list" where
  "exampleEntries =
     [(''private_thought_20250407001234.enc'', \<lparr>content = replicate 32 0, mtimeMs = 1000\<rparr>),
      (''key.txt'', \<lparr>content = replicate 44 65, mtimeMs = 5000\<rparr>),
      (''private_thought_20250407001240.enc'', \<lparr>content = replicate 48 0, mtimeMs = 7000.5\<rparr>)]"

definition exampleDir :: directory where
  "exampleDir = Some exampleEntries"

definition exampleThoughts :: "StoredThought list" where
  "exampleThoughts =
     [\<lparr>id_st = ''private_thought_20250407001240'',
       filepath = ''private/private_thought_20250407001240.enc'',
       timestamp = 7000.5, sizeBytes = 48\<rparr>,
      \<lparr>id_st = ''private_thought_20250407001234'',
       filepath = ''private/private_thought_20250407001234.enc'',
       timestamp = 1000, sizeBytes = 32\<rparr>]"

text \<open>A store of 125001 thought files, one more than that engine accepts as arguments.\<close>

definition manyFiles :: "(string \<times> file_node) list" where
  "manyFiles =
     map (\<lambda>i. (''private_thought_'' @ pad 14 i @ ''.enc'',
               \<lparr>content = replicate 32 0, mtimeMs = real i\<rparr>)) [0..<125001]"

text \<open>An environment in which \<open>stat\<close> of the older example file fails.\<close>

definition statFails :: fs_env where
  "statFails =
     \<lparr>readdir_fault = None,
      stat_fault = (\<lambda>p. if p = ''private/private_thought_20250407001234.enc''
                          then Some EACCES else None),
      argument_limit = 125000\<rparr>"

text \<open>Two thought files with one modification time.\<close>

definition tieDir :: directory where
  "tieDir = Some
     [(''private_thought_20250407001234.enc'', \<lparr>content = replicate 32 1, mtimeMs = 1000\<rparr>),
      (''private_thought_20250407001235.enc'', \<lparr>content = replicate 32 2, mtimeMs = 1000\<rparr>)]"

definition tieThoughts :: "StoredThought list" where
  "tieThoughts =
     [\<lparr>id_st = ''private_thought_20250407001234'',
       filepath = ''private/private_thought_20250407001234.enc'',
       timestamp = 1000, sizeBytes = 32\<rparr>,
      \<lparr>id_st = ''private_thought_20250407001235'',
       filepath = ''private/private_thought_20250407001235.enc'',
       timestamp = 1000, sizeBytes = 32\<rparr>]"

text \<open>
  A save on 2024-04-08 at 23:52:34.984 UTC: the file system stamps the file half a
  millisecond later, and \<open>Date.now()\<close> is read one millisecond after \<open>new Date()\<close>.
\<close>

definition exampleDate :: utc_date where
  "exampleDate = \<lparr>utc_year = 2024, utc_month = 4, utc_day = 8, utc_hours = 23,
     utc_minutes = 52, utc_seconds = 34, utc_milliseconds = 984\<rparr>"

definition exampleSave :: save_env where
  "exampleSave =
     \<lparr>mkdir_fault = None, write_fault = None, date_new = exampleDate,
      write_mtime = 1712620354984.5, date_now = 1712620354985\<rparr>"

definition exampleBlob :: buffer where
  "exampleBlob = replicate 32 7"

definition savedThought :: StoredThought where
  "savedThought =
     \<lparr>id_st = ''private_thought_20240408235234'',
      filepath = ''private/private_thought_20240408235234.enc'',
      timestamp = 1712620354985, sizeBytes = 32\<rparr>"

definition savedDir :: directory where
  "savedDir = Some
     [(''private_thought_20240408235234.enc'',
       \<lparr>content = exampleBlob, mtimeMs = 1712620354984.5\<rparr>)]"

definition listedThought :: StoredThought where
  "listedThought =
     \<lparr>id_st = ''private_thought_20240408235234'',
      filepath = ''private/private_thought_20240408235234.enc'',
      timestamp = 1712620354984.5, sizeBytes = 32\<rparr>"

section \<open>Encryption: \<open>core/encryption.ts\<close>\<close>

text \<open>\<open>keySize\<close> is a number of the configuration file, taken here as an integer.\<close>

record EncryptionConfig =
  keyFile :: string
  keySize :: int

text \<open>The manager's mutable state is its \<open>key\<close> field, the empty buffer until a key is loaded.\<close>

record EncryptionManager =
  key :: buffer
  config :: EncryptionConfig

definition newEncryptionManager :: "EncryptionConfig \<Rightarrow> EncryptionManager" where
  "newEncryptionManager cfg = \<lparr>key = [], config = cfg\<rparr>"

subsection \<open>Text and bytes: \<open>Buffer.from(s, 'utf-8')\<close> and \<open>buf.toString('utf-8')\<close>\<close>

definition highSurrogate :: "nat \<Rightarrow> bool" where
  "highSurrogate u \<longleftrightarrow> 0xD800 \<le> u \<and> u < 0xDC00"

definition lowSurrogate :: "nat \<Rightarrow> bool" where
  "lowSurrogate u \<longleftrightarrow> 0xDC00 \<le> u \<and> u < 0xE000"

text \<open>The four bytes of a code point from \<open>0x10000\<close> on.\<close>

definition utf8_four :: "nat \<Rightarrow> nat list" where
  "utf8_four cp =
     [0xF0 + cp div 0x40000, 0x80 + cp div 0x1000 mod 64, 0x80 + cp div 64 mod 64,
      0x80 + cp mod 64]"

text \<open>
  Encoding walks over the code units: a surrogate pair is one code point of four bytes,
  a surrogate without its partner is written as U+FFFD (\<open>EF BF BD\<close>).
\<close>

fun utf8_encode :: "nat list \<Rightarrow> nat list" where
  "utf8_encode [] = []"
| "utf8_encode (u # us) =
     (if u < 0x80 then u # utf8_encode us
      else if u < 0x800 then (0xC0 + u div 64) # (0x80 + u mod 64) # utf8_encode us
      else if highSurrogate u then
        (case us of
           [] \<Rightarrow> [0xEF, 0xBF, 0xBD]
         | l # rest \<Rightarrow>
             if lowSurrogate l
             then utf8_four (0x10000 + (u - 0xD800) * 0x400 + (l - 0xDC00)) @ utf8_encode rest
             else 0xEF # 0xBF # 0xBD # utf8_encode us)
      else if lowSurrogate u then 0xEF # 0xBF # 0xBD # utf8_encode us
      else (0xE0 + u div 0x1000) # (0x80 + u div 64 mod 64) # (0x80 + u mod 64)
             # utf8_encode us)"

definition continuation :: "nat \<Rightarrow> bool" where
  "continuation b \<longleftrightarrow> 0x80 \<le> b \<and> b \<le> 0xBF"

text \<open>The range of the second byte after a three-byte and a four-byte lead.\<close>

definition second_of_three :: "nat \<Rightarrow> nat \<Rightarrow> bool" where
  "second_of_three b c \<longleftrightarrow>
     (if b = 0xE0 then 0xA0 else 0x80) \<le> c \<and> c \<le> (if b = 0xED then 0x9F else 0xBF)"

definition second_of_four :: "nat \<Rightarrow> nat \<Rightarrow> bool" where
  "second_of_four b c \<longleftrightarrow>
     (if b = 0xF0 then 0x90 else 0x80) \<le> c \<and> c \<le> (if b = 0xF4 then 0x8F else 0xBF)"

text \<open>A code point from \<open>0x10000\<close> on becomes a surrogate pair.\<close>

definition surrogatePair :: "nat \<Rightarrow> nat list" where
  "surrogatePair cp = [0xD800 + (cp - 0x10000) div 0x400, 0xDC00 + (cp - 0x10000) mod 0x400]"

text \<open>
  Decoding never fails: each ill-formed or truncated sequence becomes one U+FFFD, and
  the byte that broke the sequence is read again as the start of the next one.
\<close>

fun utf8_decode :: "nat list \<Rightarrow> nat list" where
  "utf8_decode [] = []"
| "utf8_decode (b # bs) =
     (if b < 0x80 then b # utf8_decode bs
      else if 0xC2 \<le> b \<and> b \<le> 0xDF then
        (case bs of
           [] \<Rightarrow> [0xFFFD]
         | c1 # r1 \<Rightarrow>
             if continuation c1 then ((b - 0xC0) * 64 + (c1 - 0x80)) # utf8_decode r1
             else 0xFFFD # utf8_decode bs)
      else if 0xE0 \<le> b \<and> b \<le> 0xEF then
        (case bs of
           [] \<Rightarrow> [0xFFFD]
         | c1 # r1 \<Rightarrow>
             if second_of_three b c1 then
               (case r1 of
                  [] \<Rightarrow> [0xFFFD]
                | c2 # r2 \<Rightarrow>
                    if continuation c2
                    then (((b - 0xE0) * 64 + (c1 - 0x80)) * 64 + (c2 - 0x80)) # utf8_decode r2
                    else 0xFFFD # utf8_decode r1)
             else 0xFFFD # utf8_decode bs)
      else if 0xF0 \<le> b \<and> b \<le> 0xF4 then
        (case bs of
           [] \<Rightarrow> [0xFFFD]
         | c1 # r1 \<Rightarrow>
             if second_of_four b c1 then
               (case r1 of
                  [] \<Rightarrow> [0xFFFD]
                | c2 # r2 \<Rightarrow>
                    if continuation c2 then
                      (case r2 of
                         [] \<Rightarrow> [0xFFFD]
                       | c3 # r3 \<Rightarrow>
                           if continuation c3
                           then surrogatePair
                                  ((((b - 0xF0) * 64 + (c1 - 0x80)) * 64 + (c2 - 0x80)) * 64
                                   + (c3 - 0x80))
                                @ utf8_decode r3
                           else 0xFFFD # utf8_decode r2)
                    else 0xFFFD # utf8_decode r1)
             else 0xFFFD # utf8_decode bs)
      else 0xFFFD # utf8_decode bs)"

definition Buffer_from_utf8 :: "jsstring \<Rightarrow> buffer" where
  "Buffer_from_utf8 s = map of_nat (utf8_encode s)"

text \<open>The text that a buffer holds, read as UTF-8.\<close>

definition utf8_text :: "buffer \<Rightarrow> jsstring" where
  "utf8_text b = utf8_decode (map unat b)"

text \<open>
  \<open>buf.toString('utf-8')\<close>: that text, unless it is longer than the longest string of the
  engine (\<open>buffer.constants.MAX_STRING_LENGTH\<close>, a parameter).
\<close>

definition toString_utf8 :: "nat \<Rightarrow> buffer \<Rightarrow> error + jsstring" where
  "toString_utf8 maxStringLength b =
     (if maxStringLength < length (utf8_text b) then Inl StringTooLong else Inr (utf8_text b))"


subsection \<open>The \<open>crypto\<close> module: \<open>aes-256-cbc\<close>\<close>

text \<open>
  The block transformation of AES and its inverse are parameters: functions from a key
  and a 16-byte block to a block. So is the number of bytes that one \<open>update\<close> accepts
  (at most \<open>2 ^ 31 - 1\<close>, the platform counts them in a C \<open>int\<close>). Everything around them
  (padding, chaining, the checks of \<open>createCipheriv\<close>, \<open>createDecipheriv\<close>, \<open>update\<close> and
  \<open>final\<close>) is modelled.
\<close>

record block_cipher =
  encipher :: "buffer \<Rightarrow> buffer \<Rightarrow> buffer"
  decipher :: "buffer \<Rightarrow> buffer \<Rightarrow> buffer"
  max_input :: nat

definition block_cipher_ok :: "block_cipher \<Rightarrow> bool" where
  "block_cipher_ok bc \<longleftrightarrow>
     (\<forall>k b. length k = 32 \<and> length b = 16 \<longrightarrow>
        length (encipher bc k b) = 16 \<and> decipher bc k (encipher bc k b) = b)"

datatype crypto_error =
  InvalidKeyLength | InvalidIV | DataTooLong | WrongFinalBlockLength | BadDecrypt

definition xor_bytes :: "buffer \<Rightarrow> buffer \<Rightarrow> buffer" where
  "xor_bytes a b = map2 (XOR) a b"

function blocksOf :: "buffer \<Rightarrow> buffer list" where
  "blocksOf xs = (if xs = [] then [] else take 16 xs # blocksOf (drop 16 xs))"
  by pat_completeness auto
termination
  by (relation "measure length") auto

declare blocksOf.simps [simp del]

text \<open>Block padding: \<open>n\<close> bytes of value \<open>n\<close>, with \<open>1 \<le> n \<le> 16\<close>.\<close>

definition pkcs7_pad :: "buffer \<Rightarrow> buffer" where
  "pkcs7_pad data = (let n = 16 - length data mod 16 in data @ replicate n (of_nat n))"

definition pkcs7_unpad :: "buffer \<Rightarrow> buffer option" where
  "pkcs7_unpad data =
     (if data = [] then None
      else let n = unat (last data) in
        if n = 0 \<or> 16 < n \<or> length data < n then None
        else if drop (length data - n) data = replicate n (last data)
        then Some (take (length data - n) data)
        else None)"

fun cbc_encrypt :: "(buffer \<Rightarrow> buffer) \<Rightarrow> buffer \<Rightarrow> buffer list \<Rightarrow> buffer list" where
  "cbc_encrypt f prev [] = []"
| "cbc_encrypt f prev (p # ps) = (let c = f (xor_bytes p prev) in c # cbc_encrypt f c ps)"

fun cbc_decrypt :: "(buffer \<Rightarrow> buffer) \<Rightarrow> buffer \<Rightarrow> buffer list \<Rightarrow> buffer list" where
  "cbc_decrypt g prev [] = []"
| "cbc_decrypt g prev (c # cs) = xor_bytes (g c) prev # cbc_decrypt g c cs"

text \<open>
  \<open>createCipheriv('aes-256-cbc', key, iv)\<close> followed by \<open>update(data)\<close> and \<open>final()\<close>:
  the key must have 32 bytes and the IV 16, and \<open>update\<close> throws on data that is too long.
\<close>

definition cipher_run :: "block_cipher \<Rightarrow> buffer \<Rightarrow> buffer \<Rightarrow> buffer \<Rightarrow> crypto_error + buffer" where
  "cipher_run bc k iv data =
     (if length k \<noteq> 32 then Inl InvalidKeyLength
      else if length iv \<noteq> 16 then Inl InvalidIV
      else if max_input bc < length data then Inl DataTooLong
      else Inr (concat (cbc_encrypt (encipher bc k) iv (blocksOf (pkcs7_pad data)))))"

text \<open>
  \<open>createDecipheriv('aes-256-cbc', key, iv)\<close> followed by \<open>update(ciphertext)\<close>, which
  throws on data that is too long, and \<open>final()\<close>, which throws on an input that is empty
  or no whole number of blocks, and on a wrong padding.
\<close>

definition decipher_run :: "block_cipher \<Rightarrow> buffer \<Rightarrow> buffer \<Rightarrow> buffer \<Rightarrow> crypto_error + buffer" where
  "decipher_run bc k iv ciphertext =
     (if length k \<noteq> 32 then Inl InvalidKeyLength
      else if length iv \<noteq> 16 then Inl InvalidIV
      else if max_input bc < length ciphertext then Inl DataTooLong
      else if ciphertext = [] \<or> length ciphertext mod 16 \<noteq> 0 then Inl WrongFinalBlockLength
      else case pkcs7_unpad (concat (cbc_decrypt (decipher bc k) iv (blocksOf ciphertext))) of
             None \<Rightarrow> Inl BadDecrypt
           | Some decrypted \<Rightarrow> Inr decrypted)"

text \<open>
  The ciphertext of a plaintext under a key and an IV, and the bytes that deciphering
  the remainder of a blob under its first 16 bytes gives, before the padding is removed.
\<close>

abbreviation cbc_ciphertext :: "block_cipher \<Rightarrow> buffer \<Rightarrow> buffer \<Rightarrow> buffer \<Rightarrow> buffer" where
  "cbc_ciphertext bc k iv data \<equiv>
     concat (cbc_encrypt (encipher bc k) iv (blocksOf (pkcs7_pad data)))"


text \<open>
  \<open>crypto.randomBytes(size)\<close>: the next \<open>size\<close> bytes of the system's random source. A size
  below 0 or above \<open>2 ^ 31 - 1\<close> is refused with a \<open>RangeError\<close>.
\<close>

definition randomBytes :: "(nat \<Rightarrow> byte) \<Rightarrow> int \<Rightarrow> error + buffer" where
  "randomBytes rng n =
     (if n < 0 \<or> 2147483647 < n then Inl RangeError
      else Inr (map rng [0..<nat n]))"

subsection \<open>\<open>encrypt\<close> and \<open>decrypt\<close>\<close>

text \<open>The argument of \<open>encrypt\<close> is a string or a \<open>Buffer\<close>.\<close>

datatype data = Text jsstring | Bytes buffer

text \<open>\<open>typeof data === 'string' ? Buffer.from(data, 'utf-8') : data\<close>\<close>

definition dataBufferOf :: "data \<Rightarrow> buffer" where
  "dataBufferOf d = (case d of Text s \<Rightarrow> Buffer_from_utf8 s | Bytes b \<Rightarrow> b)"

text \<open>
  Both methods run in a \<open>try\<close> whose \<open>catch\<close> lets an \<open>EncryptionError\<close> pass and wraps
  every other error.
\<close>

definition encrypt ::
  "block_cipher \<Rightarrow> (nat \<Rightarrow> byte) \<Rightarrow> EncryptionManager \<Rightarrow> data \<Rightarrow> error + buffer" where
  "encrypt bc rng m d =
     (if length (key m) = 0 then Inl (EncryptionError KEY_NOT_INITIALIZED)
      else let dataBuffer = dataBufferOf d
           in case randomBytes rng 16 of
                Inl e \<Rightarrow> Inl (EncryptionError ENCRYPTION_FAILED)
              | Inr iv \<Rightarrow>
                 (case cipher_run bc (key m) iv dataBuffer of
                    Inl e \<Rightarrow> Inl (EncryptionError ENCRYPTION_FAILED)
                  | Inr encryptedData \<Rightarrow> Inr (iv @ encryptedData)))"

definition decrypt ::
  "block_cipher \<Rightarrow> nat \<Rightarrow> EncryptionManager \<Rightarrow> buffer \<Rightarrow> error + jsstring" where
  "decrypt bc maxStringLength m encryptedData =
     (if length (key m) = 0 then Inl (EncryptionError KEY_NOT_INITIALIZED)
      else if length encryptedData < 16 then Inl (EncryptionError INVALID_ENCRYPTED_DATA)
      else let iv = take 16 encryptedData;
               ciphertext = drop 16 encryptedData
           in case decipher_run bc (key m) iv ciphertext of
                Inl e \<Rightarrow> Inl (EncryptionError DECRYPTION_FAILED)
              | Inr decrypted \<Rightarrow>
                 (case toString_utf8 maxStringLength decrypted of
                    Inl e \<Rightarrow> Inl (EncryptionError DECRYPTION_FAILED)
                  | Inr s \<Rightarrow> Inr s))"

subsection \<open>The key file and \<open>initialize\<close>\<close>

text \<open>
  White space of the language (\<open>String.prototype.trim\<close>, and \<open>\s\<close> in a regular
  expression): the white space and line terminator code points.
\<close>

definition isWhiteSpace :: "nat \<Rightarrow> bool" where
  "isWhiteSpace c \<longleftrightarrow>
     c \<in> {0x09, 0x0A, 0x0B, 0x0C, 0x0D, 0x20, 0xA0, 0x1680, 0x2028, 0x2029, 0x202F, 0x205F,
          0x3000, 0xFEFF} \<or> (0x2000 \<le> c \<and> c \<le> 0x200A)"

definition js_trim :: "jsstring \<Rightarrow> jsstring" where
  "js_trim s = rev (dropWhile isWhiteSpace (rev (dropWhile isWhiteSpace s)))"

text \<open>
  The base64 codec of \<open>Buffer\<close> is a parameter: \<open>Buffer.from(s, 'base64')\<close> and
  \<open>buf.toString('base64')\<close>.
\<close>

record base64 =
  b64_decode :: "jsstring \<Rightarrow> buffer"
  b64_encode :: "buffer \<Rightarrow> jsstring"

text \<open>\<open>buf.toString('base64')\<close>, with the same limit on the length of the string.\<close>

definition toString_base64 :: "base64 \<Rightarrow> nat \<Rightarrow> buffer \<Rightarrow> error + jsstring" where
  "toString_base64 b64 maxStringLength b =
     (if maxStringLength < length (b64_encode b64 b) then Inl StringTooLong
      else Inr (b64_encode b64 b))"

text \<open>
  The key file holds text or is absent. The outside world decides the faults of
  \<open>access\<close>, \<open>readFile\<close> and \<open>writeFile\<close> during one \<open>initialize\<close>; a file that \<open>readFile\<close>
  cannot return as one string is such a fault.
\<close>

type_synonym key_file = "jsstring option"

record key_env =
  access_fault :: "errno option"
  read_fault :: "errno option"
  key_write_fault :: "errno option"

definition fs_access :: "key_env \<Rightarrow> key_file \<Rightarrow> errno option" where
  "fs_access env kf =
     (case access_fault env of
        Some e \<Rightarrow> Some e
      | None \<Rightarrow> (case kf of None \<Rightarrow> Some ENOENT | Some txt \<Rightarrow> None))"

definition fs_readFile :: "key_env \<Rightarrow> key_file \<Rightarrow> errno + jsstring" where
  "fs_readFile env kf =
     (case read_fault env of
        Some e \<Rightarrow> Inl e
      | None \<Rightarrow> (case kf of None \<Rightarrow> Inl ENOENT | Some txt \<Rightarrow> Inr txt))"

definition fs_writeKeyFile :: "key_env \<Rightarrow> key_file \<Rightarrow> jsstring \<Rightarrow> errno + key_file" where
  "fs_writeKeyFile env kf txt =
     (case key_write_fault env of Some e \<Rightarrow> Inl e | None \<Rightarrow> Inr (Some txt))"

text \<open>
  The \<open>catch\<close> block of \<open>loadOrCreateKey\<close>: an error that is neither \<open>ENOENT\<close> nor an
  \<open>EncryptionError\<close> is thrown again; otherwise a new key is generated and saved. An error
  of \<open>randomBytes\<close>, of \<open>toString\<close> or of the write escapes from the block.
\<close>

definition createKey ::
  "base64 \<Rightarrow> (nat \<Rightarrow> byte) \<Rightarrow> nat \<Rightarrow> EncryptionConfig \<Rightarrow> key_env \<Rightarrow> key_file \<Rightarrow> error
     \<Rightarrow> error + buffer \<times> key_file" where
  "createKey b64 rng maxStringLength cfg env kf err =
     (if (case err of ErrnoException e \<Rightarrow> e \<noteq> ENOENT | _ \<Rightarrow> True)
         \<and> \<not> (case err of EncryptionError c \<Rightarrow> True | _ \<Rightarrow> False)
      then Inl err
      else case randomBytes rng (keySize cfg) of
             Inl e \<Rightarrow> Inl e
           | Inr k \<Rightarrow>
              (case toString_base64 b64 maxStringLength k of
                 Inl e \<Rightarrow> Inl e
               | Inr keyText \<Rightarrow>
                  (case fs_writeKeyFile env kf keyText of
                     Inl e \<Rightarrow> Inl (ErrnoException e)
                   | Inr kf' \<Rightarrow> Inr (k, kf'))))"

definition loadOrCreateKey ::
  "base64 \<Rightarrow> (nat \<Rightarrow> byte) \<Rightarrow> nat \<Rightarrow> EncryptionConfig \<Rightarrow> key_env \<Rightarrow> key_file
     \<Rightarrow> error + buffer \<times> key_file" where
  "loadOrCreateKey b64 rng maxStringLength cfg env kf =
     (case fs_access env kf of
        Some e \<Rightarrow> createKey b64 rng maxStringLength cfg env kf (ErrnoException e)
      | None \<Rightarrow>
         (case fs_readFile env kf of
            Inl e \<Rightarrow> createKey b64 rng maxStringLength cfg env kf (ErrnoException e)
          | Inr keyBase64 \<Rightarrow>
              (let k = b64_decode b64 (js_trim keyBase64)
               in if int (length k) \<noteq> keySize cfg
                  then createKey b64 rng maxStringLength cfg env kf
                         (EncryptionError INVALID_KEY_SIZE)
                  else Inr (k, kf))))"

definition initialize ::
  "base64 \<Rightarrow> (nat \<Rightarrow> byte) \<Rightarrow> nat \<Rightarrow> key_env \<Rightarrow> EncryptionManager \<Rightarrow> key_file
     \<Rightarrow> error + EncryptionManager \<times> key_file" where
  "initialize b64 rng maxStringLength env m kf =
     (case loadOrCreateKey b64 rng maxStringLength (config m) env kf of
        Inl e \<Rightarrow> Inl (EncryptionError INIT_FAILED)
      | Inr (k, kf') \<Rightarrow> Inr (m\<lparr>key := k\<rparr>, kf'))"

subsection \<open>A base64 codec to run the model\<close>

text \<open>
  The standard alphabet with padding for encoding. Decoding reads the low byte of each
  code unit, stops at the first \<open>=\<close>, skips every other character outside the alphabet
  and accepts the URL-safe \<open>-\<close> and \<open>_\<close>.
\<close>

definition b64_char :: "nat \<Rightarrow> nat" where
  "b64_char n =
     of_char (''ABCDEFGHIJKLMNOPQRSTUVWXYZabcdefghijklmnopqrstuvwxyz0123456789+/'' ! (n mod 64))"

fun b64_enc :: "nat list \<Rightarrow> nat list" where
  "b64_enc (a # b # c # rest) =
     b64_char (a div 4) # b64_char (a mod 4 * 16 + b div 16)
       # b64_char (b mod 16 * 4 + c div 64) # b64_char (c mod 64) # b64_enc rest"
| "b64_enc [a, b] =
     [b64_char (a div 4), b64_char (a mod 4 * 16 + b div 16), b64_char (b mod 16 * 4), 0x3D]"
| "b64_enc [a] = [b64_char (a div 4), b64_char (a mod 4 * 16), 0x3D, 0x3D]"
| "b64_enc [] = []"

definition b64_value :: "nat \<Rightarrow> nat option" where
  "b64_value c =
     (if 0x41 \<le> c \<and> c \<le> 0x5A then Some (c - 0x41)
      else if 0x61 \<le> c \<and> c \<le> 0x7A then Some (c - 0x61 + 26)
      else if 0x30 \<le> c \<and> c \<le> 0x39 then Some (c - 0x30 + 52)
      else if c = 0x2B \<or> c = 0x2D then Some 62
      else if c = 0x2F \<or> c = 0x5F then Some 63
      else None)"

fun b64_dec :: "nat list \<Rightarrow> nat list" where
  "b64_dec (a # b # c # d # rest) =
     (a * 4 + b div 16) # (b mod 16 * 16 + c div 4) # (c mod 4 * 64 + d) # b64_dec rest"
| "b64_dec [a, b, c] = [a * 4 + b div 16, b mod 16 * 16 + c div 4]"
| "b64_dec [a, b] = [a * 4 + b div 16]"
| "b64_dec rest = []"

definition nodeBase64 :: base64 where
  "nodeBase64 =
     \<lparr>b64_decode = (\<lambda>s. map of_nat
                         (b64_dec (List.map_filter b64_value
                                     (takeWhile (\<lambda>c. c \<noteq> 0x3D) (map (\<lambda>c. c mod 256) s))))),
      b64_encode = (\<lambda>buf. b64_enc (map unat buf))\<rparr>"

definition noKeyFaults :: key_env where
  "noKeyFaults = \<lparr>access_fault = None, read_fault = None, key_write_fault = None\<rparr>"

subsection \<open>Example values\<close>

text \<open>
  A stand-in for the block transformation, used to run the model: the block is combined
  with the first sixteen key bytes. It is its own inverse.
\<close>

definition xorCipher :: block_cipher where
  "xorCipher =
     \<lparr>encipher = (\<lambda>k b. xor_bytes b (take 16 k)), decipher = (\<lambda>k b. xor_bytes b (take 16 k)),
      max_input = 2147483647\<rparr>"

text \<open>The longest string of V8 on a 64-bit platform: \<open>2 ^ 29 - 24\<close> code units.\<close>

definition kStringMaxLength :: nat where
  "kStringMaxLength = 536870888"

definition exampleKey :: buffer where
  "exampleKey = map (\<lambda>i. of_nat (3 * i + 1)) [0..<32]"

definition exampleRng :: "nat \<Rightarrow> byte" where
  "exampleRng i = of_nat (7 * i + 11)"

definition exampleManager :: EncryptionManager where
  "exampleManager = \<lparr>key = exampleKey, config = \<lparr>keyFile = ''key.txt'', keySize = 32\<rparr>\<rparr>"

definition freshManager :: EncryptionManager where
  "freshManager = newEncryptionManager \<lparr>keyFile = ''key.txt'', keySize = 32\<rparr>"

text \<open>The first 32 bytes of the example random source, and their base64 text.\<close>

definition freshKey :: buffer where
  "freshKey = [11, 18, 25, 32, 39, 46, 53, 60, 67, 74, 81, 88, 95, 102, 109,
               116, 123, 130, 137, 144, 151, 158, 165, 172, 179, 186, 193,
               200, 207, 214, 221, 228]"

definition freshKeyText :: jsstring where
  "freshKeyText = map of_char ''CxIZICcuNTxDSlFYX2ZtdHuCiZCXnqWss7rByM/W3eQ=''"

text \<open>A key file that holds the base64 text of three bytes and a line feed.\<close>

definition shortKeyText :: jsstring where
  "shortKeyText = map of_char ''AAAA\<newline>''"

text \<open>A manager whose configured key size is \<open>2 ^ 31\<close> bytes.\<close>

definition hugeKeyManager :: EncryptionManager where
  "hugeKeyManager = newEncryptionManager \<lparr>keyFile = ''key.txt'', keySize = 2147483648\<rparr>"

text \<open>A manager whose configured key size is \<open>2 ^ 30\<close> bytes.\<close>

definition bigKeyManager :: EncryptionManager where
  "bigKeyManager = newEncryptionManager \<lparr>keyFile = ''key.txt'', keySize = 1073741824\<rparr>"



text \<open>
  The blobs that the example manager produces for the single byte \<open>FF\<close>, for the string
  of one unpaired surrogate, and for the empty string.
\<close>

definition garbledBlob :: buffer where
  "garbledBlob =
     [11, 18, 25, 32, 39, 46, 53, 60, 67, 74, 81, 88, 95, 102, 109, 116, 245,
      25, 17, 37, 37, 49, 41, 37, 85, 89, 65, 117, 117, 65, 73, 85]"


definition emptyBlob :: buffer where
  "emptyBlob =
     [11, 18, 25, 32, 39, 46, 53, 60, 67, 74, 81, 88, 95, 102, 109, 116, 26,
      6, 14, 58, 58, 46, 54, 58, 74, 70, 94, 106, 106, 94, 86, 74]"

section \<open>Privacy detection: \<open>core/privacy-detector.ts\<close>\<close>

text \<open>
  A \<open>number\<close> of the language is a real number (the values that the program computes are
  exact), or one of \<open>NaN\<close>, \<open>Infinity\<close> and \<open>-Infinity\<close>. \<open>a > b\<close> is false when one side is
  \<open>NaN\<close>.
\<close>

datatype number = Num real | NaN | PosInfinity | NegInfinity

fun greater :: "number \<Rightarrow> number \<Rightarrow> bool" where
  "greater (Num a) (Num b) = (a > b)"
| "greater NaN b = False"
| "greater a NaN = False"
| "greater NegInfinity b = False"
| "greater a PosInfinity = False"
| "greater PosInfinity b = True"
| "greater a NegInfinity = True"

record PrivacyConfig =
  introspectionThreshold :: number
  sensitivityThreshold :: number
  customPatterns :: "jsstring list option"

subsection \<open>Regular expressions of the program\<close>

text \<open>
  The program's regular expressions are built from literals, \<open>\s+\<close>, \<open>\b\<close>, alternatives
  and sequences, all with the flag \<open>i\<close>. A matcher returns the positions a match can end
  at, in the order in which a backtracking matcher tries them; a position is the
  previous code unit (if any) and the rest of the input.
\<close>

datatype rx =
  Lit jsstring
  | Spaces
  | WordBoundary
  | Alt rx rx
  | Seq rx rx

definition str :: "string \<Rightarrow> jsstring" where
  "str s = map of_char s"

text \<open>One of several words, tried from left to right.\<close>

fun oneOf :: "string list \<Rightarrow> rx" where
  "oneOf [] = Lit []"
| "oneOf [w] = Lit (str w)"
| "oneOf (w # ws) = Alt (Lit (str w)) (oneOf ws)"

text \<open>
  Case-insensitive comparison without the flag \<open>u\<close>: a code unit is mapped to its
  upper-case form, except that a code unit outside ASCII is never mapped into ASCII. The
  upper-case mapping outside ASCII is the parameter \<open>uc\<close>.
\<close>

definition canonicalize :: "(nat \<Rightarrow> nat) \<Rightarrow> nat \<Rightarrow> nat" where
  "canonicalize uc c =
     (if c < 128 then (if 0x61 \<le> c \<and> c \<le> 0x7A then c - 32 else c)
      else let u = uc c in if u < 128 then c else u)"

definition isWordChar :: "nat \<Rightarrow> bool" where
  "isWordChar c \<longleftrightarrow>
     (0x30 \<le> c \<and> c \<le> 0x39) \<or> (0x41 \<le> c \<and> c \<le> 0x5A) \<or> c = 0x5F \<or> (0x61 \<le> c \<and> c \<le> 0x7A)"

type_synonym position = "nat option \<times> jsstring"

definition advance :: "nat \<Rightarrow> position \<Rightarrow> position" where
  "advance k pos =
     (case pos of (prev, rest) \<Rightarrow>
        (if k = 0 then prev else Some (rest ! (k - 1)), drop k rest))"

definition atWordBoundary :: "position \<Rightarrow> bool" where
  "atWordBoundary pos =
     (case pos of (prev, rest) \<Rightarrow>
        (case prev of None \<Rightarrow> False | Some c \<Rightarrow> isWordChar c)
        \<noteq> (case rest of [] \<Rightarrow> False | c # cs \<Rightarrow> isWordChar c))"

fun rx_match :: "(nat \<Rightarrow> nat) \<Rightarrow> rx \<Rightarrow> position \<Rightarrow> position list" where
  "rx_match uc (Lit w) pos =
     (if length w \<le> length (snd pos)
         \<and> map (canonicalize uc) (take (length w) (snd pos)) = map (canonicalize uc) w
      then [advance (length w) pos] else [])"
| "rx_match uc Spaces pos =
     map (\<lambda>k. advance k pos) (rev [1..<Suc (length (takeWhile isWhiteSpace (snd pos)))])"
| "rx_match uc WordBoundary pos = (if atWordBoundary pos then [pos] else [])"
| "rx_match uc (Alt a b) pos = rx_match uc a pos @ rx_match uc b pos"
| "rx_match uc (Seq a b) pos = concat (map (rx_match uc b) (rx_match uc a pos))"

text \<open>\<open>pattern.test(text)\<close> without the flag \<open>g\<close>: is there a match from some position?\<close>

fun rx_search :: "(nat \<Rightarrow> nat) \<Rightarrow> rx \<Rightarrow> nat option \<Rightarrow> jsstring \<Rightarrow> bool" where
  "rx_search uc r prev [] = (rx_match uc r (prev, []) \<noteq> [])"
| "rx_search uc r prev (c # cs) =
     (rx_match uc r (prev, c # cs) \<noteq> [] \<or> rx_search uc r (Some c) cs)"

definition rx_test :: "(nat \<Rightarrow> nat) \<Rightarrow> rx \<Rightarrow> jsstring \<Rightarrow> bool" where
  "rx_test uc r text = rx_search uc r None text"

text \<open>
  \<open>(text.match(pattern) || []).length\<close> with the flag \<open>g\<close>: the matches found from left
  to right, each search starting where the last match ended (one further after an empty
  match). \<open>skip\<close> counts the code units still covered by the last match.
\<close>

fun rx_count :: "(nat \<Rightarrow> nat) \<Rightarrow> rx \<Rightarrow> nat option \<Rightarrow> jsstring \<Rightarrow> nat \<Rightarrow> nat" where
  "rx_count uc r prev [] skip =
     (if skip = 0 \<and> rx_match uc r (prev, []) \<noteq> [] then 1 else 0)"
| "rx_count uc r prev (c # cs) skip =
     (if 0 < skip then rx_count uc r (Some c) cs (skip - 1)
      else case rx_match uc r (prev, c # cs) of
             [] \<Rightarrow> rx_count uc r (Some c) cs 0
           | (p, rest) # others \<Rightarrow>
               1 + rx_count uc r (Some c) cs (length (c # cs) - length rest - 1))"

definition matchCount :: "(nat \<Rightarrow> nat) \<Rightarrow> rx \<Rightarrow> jsstring \<Rightarrow> nat" where
  "matchCount uc r text = rx_count uc r None text 0"

text \<open>
  \<open>text.split(/\s+/)\<close>: the pieces between the runs of white space; a run at the start
  or at the end gives an empty piece, and the empty string gives one empty piece.
\<close>

fun splitPieces :: "bool \<Rightarrow> jsstring \<Rightarrow> jsstring \<Rightarrow> jsstring list" where
  "splitPieces inRun piece [] = [piece]"
| "splitPieces inRun piece (c # cs) =
     (if isWhiteSpace c then
        (if inRun then splitPieces True piece cs else piece # splitPieces True [] cs)
      else splitPieces False (piece @ [c]) cs)"

definition splitWhiteSpace :: "jsstring \<Rightarrow> jsstring list" where
  "splitWhiteSpace text = splitPieces False [] text"

subsection \<open>The indicator patterns\<close>

text \<open>\<open>/\b(w1|w2|...)\b/gi\<close>\<close>

definition wholeWord :: "string list \<Rightarrow> rx" where
  "wholeWord ws = Seq WordBoundary (Seq (oneOf ws) WordBoundary)"

text \<open>A sequence of expressions separated by \<open>\s+\<close>.\<close>

fun spaced :: "rx list \<Rightarrow> rx" where
  "spaced [] = Lit []"
| "spaced [r] = r"
| "spaced (r # rs) = Seq r (Seq Spaces (spaced rs))"

definition DEFAULT_PRIVACY_INDICATORS :: "rx list" where
  "DEFAULT_PRIVACY_INDICATORS =
     [oneOf [''private'', ''secret'', ''confidential'', ''personal'', ''sensitive''],
      spaced [oneOf [''don't'', ''do not'', ''shouldn't'', ''should not'', ''wouldn't'',
                     ''would not''],
              oneOf [''share'', ''tell'', ''reveal'', ''disclose'']],
      spaced [oneOf [''between'', ''just'', ''only''],
              oneOf [''us'', ''ourselves'', ''me and you'']],
      spaced [Lit (str ''keep''), Lit (str ''this''),
              Alt (spaced [Lit (str ''to''), Lit (str ''yourself'')])
                  (oneOf [''private'', ''secret'', ''confidential''])],
      spaced [oneOf [''internal'', ''introspective'', ''inner''],
              oneOf [''thought'', ''reflection'', ''monologue'', ''dialogue'']],
      spaced [oneOf [''nobody'', ''no one''], Lit (str ''should''),
              oneOf [''know'', ''hear'', ''see'', ''read'']],
      spaced [Lit (str ''if''), Lit (str ''I'm''), Lit (str ''being''), Lit (str ''honest'')],
      spaced [Lit (str ''I''),
              oneOf [''wouldn't'', ''won't'', ''can't'', ''cannot'', ''don't''],
              oneOf [''say'', ''admit'', ''acknowledge''], Lit (str ''this''),
              oneOf [''publicly'', ''openly'']]]"

subsection \<open>The detector\<close>

record PrivacyDetector =
  detectorConfig :: PrivacyConfig
  privacyPatterns :: "rx list"

text \<open>
  \<open>initialize\<close>: the default indicators, then each custom pattern. A custom pattern is
  escaped before it is compiled, so it matches as a literal, whatever it contains.
\<close>

definition createPrivacyDetector :: "PrivacyConfig \<Rightarrow> PrivacyDetector" where
  "createPrivacyDetector cfg =
     \<lparr>detectorConfig = cfg,
      privacyPatterns =
        DEFAULT_PRIVACY_INDICATORS
        @ (case customPatterns cfg of None \<Rightarrow> [] | Some patterns \<Rightarrow> map Lit patterns)\<rparr>"

definition calculateIntrospectionScore :: "(nat \<Rightarrow> nat) \<Rightarrow> jsstring \<Rightarrow> real" where
  "calculateIntrospectionScore uc text =
     (let firstPerson = matchCount uc (wholeWord [''I'', ''me'', ''my'', ''mine'', ''myself'']) text;
          thinkingVerbs =
            matchCount uc (wholeWord [''think'', ''feel'', ''believe'', ''wonder'', ''question'',
                                      ''doubt'', ''reflect'']) text;
          uncertainty =
            matchCount uc (wholeWord [''maybe'', ''perhaps'', ''possibly'', ''might'', ''could be'',
                                      ''uncertain'', ''unsure'']) text;
          wordCount = length (splitWhiteSpace text)
      in if wordCount = 0 then 0
         else let introspectionIndicators = firstPerson + thinkingVerbs + uncertainty
              in min 1 (real introspectionIndicators / (real wordCount * 0.3)))"

definition sensitiveTopics :: "rx list" where
  "sensitiveTopics =
     [wholeWord [''controversial'', ''controversy'', ''contentious'', ''dispute'', ''disagreement''],
      wholeWord [''personal'', ''private'', ''intimate'', ''secret''],
      wholeWord [''worry'', ''concern'', ''afraid'', ''fear'', ''anxious'', ''anxiety''],
      wholeWord [''critique'', ''criticism'', ''critical'', ''flaw'', ''weakness'', ''shortcoming'']]"

definition calculateSensitivityScore :: "(nat \<Rightarrow> nat) \<Rightarrow> jsstring \<Rightarrow> real" where
  "calculateSensitivityScore uc text =
     (let topicMentions = fold (\<lambda>pattern sum. sum + matchCount uc pattern text) sensitiveTopics 0;
          cautionPhrases =
            matchCount uc (wholeWord [''careful'', ''cautious'', ''warning'', ''between us'',
                                      ''not for'', ''hesitant'']) text;
          wordCount = length (splitWhiteSpace text)
      in if wordCount = 0 then 0
         else let sensitivityIndicators = topicMentions + cautionPhrases * 2
              in min 1 (real sensitivityIndicators / (real wordCount * 0.25)))"

text \<open>The two scores are optional arguments; a missing one is computed.\<close>

definition isLikelyPrivate ::
  "(nat \<Rightarrow> nat) \<Rightarrow> PrivacyDetector \<Rightarrow> jsstring \<Rightarrow> number option \<Rightarrow> number option
     \<Rightarrow> bool" where
  "isLikelyPrivate uc det text introspectionScore sensitivityScore =
     (if list_ex (\<lambda>pattern. rx_test uc pattern text) (privacyPatterns det) then True
      else let finalIntrospectionScore =
                 (case introspectionScore of
                    Some score \<Rightarrow> score
                  | None \<Rightarrow> Num (calculateIntrospectionScore uc text))
           in if greater finalIntrospectionScore (introspectionThreshold (detectorConfig det))
              then True
              else let finalSensitivityScore =
                         (case sensitivityScore of
                            Some score \<Rightarrow> score
                          | None \<Rightarrow> Num (calculateSensitivityScore uc text))
                   in if greater finalSensitivityScore (sensitivityThreshold (detectorConfig det))
                      then True else False)"

subsection \<open>Notions used in the statements and example values\<close>

text \<open>The tokens of a text: its non-empty pieces between white space.\<close>

definition tokens :: "jsstring \<Rightarrow> jsstring list" where
  "tokens text = filter (\<lambda>piece. piece \<noteq> []) (splitWhiteSpace text)"

definition defaultPrivacy :: PrivacyConfig where
  "defaultPrivacy =
     \<lparr>introspectionThreshold = Num 0.7, sensitivityThreshold = Num 0.8, customPatterns = None\<rparr>"

text \<open>An upper-case mapping that leaves every code unit outside ASCII alone.\<close>

definition asciiOnly :: "nat \<Rightarrow> nat" where
  "asciiOnly c = c"

text \<open>
  A segment that holds an indicator phrase and nothing that either score counts; the
  fourth of the default indicators; and a detector that was constructed but not
  initialised, which has no pattern.
\<close>

definition keepText :: jsstring where
  "keepText = str ''Keep this to yourself.''"

definition keepPattern :: rx where
  "keepPattern =
     spaced [Lit (str ''keep''), Lit (str ''this''),
              Alt (spaced [Lit (str ''to''), Lit (str ''yourself'')])
                  (oneOf [''private'', ''secret'', ''confidential''])]"

definition bareDetector :: PrivacyDetector where
  "bareDetector = \<lparr>detectorConfig = defaultPrivacy, privacyPatterns = []\<rparr>"

text \<open>A configuration with one custom pattern, and a segment that holds it.\<close>

definition zebraConfig :: PrivacyConfig where
  "zebraConfig = defaultPrivacy\<lparr>customPatterns := Some [str ''a.b'']\<rparr>"

definition zebraText :: jsstring where
  "zebraText = str ''see A.B''"

text \<open>A segment of white space only.\<close>

definition blankText :: jsstring where
  "blankText = str '' \<newline>  ''"

section \<open>Properties of the storage manager\<close>

subsection \<open>Statistics\<close>

lemma fold_min_Min: "fold min ts (t::real) = Min (set (t # ts))"
proof (induction ts arbitrary: t)
  case Nil
  show ?case by simp
next
  case (Cons a ts)
  have step: "fold min (a # ts) t = Min (insert (min a t) (set ts))"
    using Cons.IH [of "min a t"] by simp
  show ?case
  proof (cases "ts = []")
    case True
    then show ?thesis by (simp add: min.commute)
  next
    case False
    then have ne: "set ts \<noteq> {}" by simp
    have "Min (insert (min a t) (set ts)) = min (min a t) (Min (set ts))"
      by (simp only: Min_insert [OF finite_set ne])
    moreover have "Min (set (t # a # ts)) = min t (min a (Min (set ts)))"
      by (simp only: list.set Min_insert [OF finite_set ne]
            Min_insert [OF finite_insert [THEN iffD2, OF finite_set] insert_not_empty])
    ultimately show ?thesis
      using step by (simp add: min.assoc min.commute min.left_commute)
  qed
qed

lemma fold_max_Max: "fold max ts (t::real) = Max (set (t # ts))"
proof (induction ts arbitrary: t)
  case Nil
  show ?case by simp
next
  case (Cons a ts)
  have step: "fold max (a # ts) t = Max (insert (max a t) (set ts))"
    using Cons.IH [of "max a t"] by simp
  show ?case
  proof (cases "ts = []")
    case True
    then show ?thesis by (simp add: max.commute)
  next
    case False
    then have ne: "set ts \<noteq> {}" by simp
    have "Max (insert (max a t) (set ts)) = max (max a t) (Max (set ts))"
      by (simp only: Max_insert [OF finite_set ne])
    moreover have "Max (set (t # a # ts)) = max t (max a (Max (set ts)))"
      by (simp only: list.set Max_insert [OF finite_set ne]
            Max_insert [OF finite_insert [THEN iffD2, OF finite_set] insert_not_empty])
    ultimately show ?thesis
      using step by (simp add: max.assoc max.commute max.left_commute)
  qed
qed

lemma fold_add_sizes:
  "fold (\<lambda>thought sum. sum + sizeBytes thought) xs a = a + sum_list (map sizeBytes xs)"
  by (induction xs arbitrary: a) simp_all

lemma statsOf_Nil: "statsOf limit [] = Inr zeroStats"
  by (simp add: statsOf_def zeroStats_def)

lemma statsOf_nonempty:
  assumes "thoughts \<noteq> []" and "length thoughts \<le> limit"
  shows "statsOf limit thoughts =
     Inr \<lparr>count_st = length thoughts,
          totalSizeBytes = sum_list (map sizeBytes thoughts),
          oldestTimestamp = Min (set (map timestamp thoughts)),
          newestTimestamp = Max (set (map timestamp thoughts))\<rparr>"
proof -
  obtain x xs where th: "thoughts = x # xs" using assms(1) by (cases thoughts) auto
  have le: "\<not> limit < Suc (length xs)" using assms(2) th by simp
  show ?thesis
    unfolding statsOf_def th
    by (simp add: math_min_def math_max_def fold_min_Min fold_max_Max fold_add_sizes le)
qed

lemma statsOf_beyond_limit:
  assumes "limit < length thoughts"
  shows "statsOf limit thoughts = Inl RangeError"
proof -
  obtain x xs where th: "thoughts = x # xs" using assms by (cases thoughts) auto
  have lt: "limit < Suc (length xs)" using assms th by simp
  show ?thesis
    unfolding statsOf_def th by (simp add: math_min_def lt)
qed

lemma path_normalize_private: "path_normalize ''private'' = ''private''"
  by (simp add: path_normalize_def)

lemma path_join_private: "path_join ''private'' name = ''private/'' @ name"
  by (simp add: path_join_def path_normalize_private)

lemmas storage_eval = getThoughtMetadata_def getSavedFiles_def fs_readdir_def noFaults_def
  exampleDir_def exampleEntries_def endsWith_def path_join_private fs_stat_def basename_def
  basename_ext_def js_sort_def newestFirst_def exampleThoughts_def

lemma exampleDir_metadata: "getThoughtMetadata (noFaults) ''private'' exampleDir = Inr exampleThoughts"
  by (simp add: storage_eval)

lemma getThoughtMetadata_empty_store:
  assumes "readdir_fault env = None" and "d = None \<or> d = Some []"
  shows "getThoughtMetadata env privateDir d = Inr []"
  using assms by (auto simp: getThoughtMetadata_def getSavedFiles_def fs_readdir_def js_sort_def)

text \<open>
  Within the engine's limit the statistics are the aggregates of the listed records: four
  zeros for an empty listing, else the number of records, the sum of their sizes, and the
  least and the greatest of their timestamps.
\<close>

lemma getStorageStats_within_limit:
  "(getThoughtMetadata env privateDir d = Inr [] \<longrightarrow>
      getStorageStats env privateDir d = Inr zeroStats) \<and>
   (getThoughtMetadata env privateDir d = Inr thoughts \<and> thoughts \<noteq> []
      \<and> length thoughts \<le> argument_limit env \<longrightarrow>
      getStorageStats env privateDir d =
        Inr \<lparr>count_st = length thoughts,
             totalSizeBytes = sum_list (map sizeBytes thoughts),
             oldestTimestamp = Min (set (map timestamp thoughts)),
             newestTimestamp = Max (set (map timestamp thoughts))\<rparr>)"
  by (simp add: getStorageStats_def statsOf_Nil statsOf_nonempty)

lemma exampleDir_stats:
  "getStorageStats noFaults ''private'' exampleDir =
     Inr \<lparr>count_st = 2, totalSizeBytes = 80, oldestTimestamp = 1000, newestTimestamp = 7000.5\<rparr>"
proof -
  have "length exampleThoughts \<le> argument_limit noFaults"
    by (simp add: exampleThoughts_def noFaults_def)
  moreover have "exampleThoughts \<noteq> []" by (simp add: exampleThoughts_def)
  ultimately have "getStorageStats noFaults ''private'' exampleDir =
        Inr \<lparr>count_st = length exampleThoughts,
             totalSizeBytes = sum_list (map sizeBytes exampleThoughts),
             oldestTimestamp = Min (set (map timestamp exampleThoughts)),
             newestTimestamp = Max (set (map timestamp exampleThoughts))\<rparr>"
    using getStorageStats_within_limit [of noFaults "''private''" exampleDir exampleThoughts]
      exampleDir_metadata by simp
  then show ?thesis by (simp add: exampleThoughts_def)
qed

subsection \<open>Sorting and collecting\<close>

lemma set_js_insert: "set (js_insert cmp x ys) = insert x (set ys)"
  by (induction ys) auto

lemma length_js_insert: "length (js_insert cmp x ys) = Suc (length ys)"
  by (induction ys) auto

lemma set_js_sort: "set (js_sort cmp xs) = set xs"
  by (induction xs) (simp_all add: js_sort_def set_js_insert)

lemma length_js_sort: "length (js_sort cmp xs) = length xs"
  by (induction xs) (simp_all add: js_sort_def length_js_insert)

lemma js_insert_newestFirst:
  "newestFirstOrder ys \<Longrightarrow> newestFirstOrder (js_insert newestFirst x ys)"
proof (induction ys)
  case Nil
  show ?case by (simp add: newestFirstOrder_def)
next
  case (Cons y ys)
  show ?case
  proof (cases "newestFirst x y \<le> 0")
    case True
    then have "timestamp y \<le> timestamp x" by (simp add: newestFirst_def)
    with Cons.prems show ?thesis
      using True by (auto simp: newestFirstOrder_def)
  next
    case False
    then have lt: "timestamp x < timestamp y" by (simp add: newestFirst_def)
    have "newestFirstOrder (js_insert newestFirst x ys)"
      using Cons by (simp add: newestFirstOrder_def)
    moreover have "\<forall>b\<in>set (js_insert newestFirst x ys). timestamp b \<le> timestamp y"
      using Cons.prems lt by (auto simp: set_js_insert newestFirstOrder_def)
    ultimately show ?thesis using False by (simp add: newestFirstOrder_def)
  qed
qed

lemma js_sort_newestFirst: "newestFirstOrder (js_sort newestFirst xs)"
proof (induction xs)
  case Nil
  show ?case by (simp add: js_sort_def newestFirstOrder_def)
next
  case (Cons x xs)
  then show ?case using js_insert_newestFirst [of "js_sort newestFirst xs" x]
    by (simp add: js_sort_def)
qed

lemma distinct_js_insert:
  "distinct (map f (js_insert cmp x ys)) = distinct (map f (x # ys))"
  by (induction ys) (auto simp: set_js_insert)

lemma distinct_js_sort: "distinct (map f (js_sort cmp xs)) = distinct (map f xs)"
proof (induction xs)
  case Nil show ?case by (simp add: js_sort_def)
next
  case (Cons x xs)
  have "distinct (map f (js_sort cmp (x # xs))) = distinct (map f (x # js_sort cmp xs))"
    by (simp add: js_sort_def distinct_js_insert)
  also have "\<dots> = distinct (map f (x # xs))"
    using Cons by (simp add: set_js_sort)
  finally show ?case .
qed

lemma strict_of_distinct:
  "sorted_wrt (\<lambda>a b. (f a :: real) \<ge> f b) ts \<Longrightarrow> distinct (map f ts)
     \<Longrightarrow> sorted_wrt (\<lambda>a b. f a > f b) ts"
proof (induction ts)
  case Nil
  show ?case by simp
next
  case (Cons a ts)
  have "f b < f a" if "b \<in> set ts" for b
  proof -
    have "f b \<le> f a" using Cons.prems(1) that by simp
    moreover have "f a \<notin> f ` set ts" using Cons.prems(2) by simp
    then have "f b \<noteq> f a" using that by (metis imageI)
    ultimately show ?thesis by simp
  qed
  then show ?case using Cons by simp
qed

lemma set_collectMetadata:
  "set (collectMetadata env dir d fps) =
     {metadataOf fp stats | fp stats. fp \<in> set fps \<and> fs_stat env dir d fp = Inr stats}"
proof (induction fps)
  case Nil
  show ?case by simp
next
  case (Cons fp fps)
  show ?case
  proof (cases "fs_stat env dir d fp")
    case (Inl e)
    then show ?thesis using Cons by auto
  next
    case (Inr stats)
    then show ?thesis using Cons by (auto simp: metadataOf_def)
  qed
qed

lemma length_collectMetadata:
  "length (collectMetadata env dir d fps) =
   length (filter (\<lambda>fp. \<exists>stats. fs_stat env dir d fp = Inr stats) fps)"
  by (induction fps) (auto split: sum.splits)

lemma filepath_collectMetadata:
  "t \<in> set (collectMetadata env dir d fps) \<Longrightarrow> filepath t \<in> set fps"
  by (auto simp: set_collectMetadata metadataOf_def)

lemma collectMetadata_cong:
  "(\<And>fp. fp \<in> set fps \<Longrightarrow> fs_stat env dir d1 fp = fs_stat env dir d2 fp)
     \<Longrightarrow> collectMetadata env dir d1 fps = collectMetadata env dir d2 fps"
proof (induction fps)
  case Nil
  show ?case by simp
next
  case (Cons a fps)
  have "collectMetadata env dir d1 fps = collectMetadata env dir d2 fps"
    using Cons by simp
  moreover have "fs_stat env dir d1 a = fs_stat env dir d2 a"
    using Cons.prems by simp
  ultimately show ?case by (simp split: sum.split)
qed

lemma listing_without_fault:
  assumes "readdir_fault env = None"
  shows "getThoughtMetadata env dir (Some es) =
     Inr (js_sort newestFirst (collectMetadata env dir (Some es)
            (map (path_join dir) (filter (\<lambda>file. endsWith file ''.enc'') (map fst es)))))"
  using assms by (simp add: getThoughtMetadata_def getSavedFiles_def fs_readdir_def)

subsection \<open>Only \<open>.enc\<close> files\<close>

lemma path_join_inj: "path_join dir a = path_join dir b \<Longrightarrow> a = b"
  by (auto simp: path_join_def Let_def split: if_splits)

lemma map_of_joined:
  "map_of (map (\<lambda>(n, f). (path_join dir n, f)) es) (path_join dir n) = map_of es n"
  by (induction es) (auto dest: path_join_inj)

lemma map_of_filter_key:
  "map_of (filter (\<lambda>(k, v). P k) es) n = (if P n then map_of es n else None)"
  by (induction es) auto

lemma fs_stat_encEntries:
  assumes "endsWith n ''.enc''"
  shows "fs_stat env dir (Some (encEntries es)) (path_join dir n) =
         fs_stat env dir (Some es) (path_join dir n)"
proof -
  have "map_of (map (\<lambda>(n, f). (path_join dir n, f)) (encEntries es)) (path_join dir n) =
        map_of (map (\<lambda>(n, f). (path_join dir n, f)) es) (path_join dir n)"
    using assms by (simp only: map_of_joined encEntries_def map_of_filter_key if_True)
  then show ?thesis by (simp add: fs_stat_def split: option.split)
qed

lemma names_encEntries:
  "filter (\<lambda>file. endsWith file ''.enc'') (map fst (encEntries es)) =
   filter (\<lambda>file. endsWith file ''.enc'') (map fst es)"
  by (induction es) (auto simp: encEntries_def)

lemma getSavedFiles_encEntries:
  "getSavedFiles env dir (Some (encEntries es)) = getSavedFiles env dir (Some es)"
  by (simp add: getSavedFiles_def fs_readdir_def names_encEntries split: option.splits)

lemma getSavedFiles_names:
  assumes "getSavedFiles env dir (Some es) = Inr fps" and "fp \<in> set fps"
  shows "\<exists>n. n \<in> fst ` set es \<and> endsWith n ''.enc'' \<and> fp = path_join dir n"
  using assms
  by (auto simp: getSavedFiles_def fs_readdir_def split: option.splits if_splits)

lemma getThoughtMetadata_encEntries:
  "getThoughtMetadata env dir (Some (encEntries es)) = getThoughtMetadata env dir (Some es)"
proof (cases "getSavedFiles env dir (Some es)")
  case (Inl e)
  then show ?thesis by (simp add: getThoughtMetadata_def getSavedFiles_encEntries)
next
  case (Inr fps)
  have "collectMetadata env dir (Some (encEntries es)) fps = collectMetadata env dir (Some es) fps"
  proof (rule collectMetadata_cong)
    fix fp assume "fp \<in> set fps"
    then obtain n where "endsWith n ''.enc''" "fp = path_join dir n"
      using getSavedFiles_names [OF Inr] by blast
    then show "fs_stat env dir (Some (encEntries es)) fp = fs_stat env dir (Some es) fp"
      by (simp add: fs_stat_encEntries)
  qed
  then show ?thesis using Inr by (simp add: getThoughtMetadata_def getSavedFiles_encEntries)
qed

lemma encEntries_example:
  "encEntries exampleEntries =
     [(''private_thought_20250407001234.enc'', \<lparr>content = replicate 32 0, mtimeMs = 1000\<rparr>),
      (''private_thought_20250407001240.enc'', \<lparr>content = replicate 48 0, mtimeMs = 7000.5\<rparr>)]"
  by (simp add: encEntries_def exampleEntries_def endsWith_def)

text \<open>
  Claim C10. For every state of the storage directory, the listing and the statistics
  consider only the files whose name ends with \<open>.enc\<close>: both are the same as on the
  directory with every other file removed, and every returned record has the path of a
  file of the directory whose name ends with \<open>.enc\<close>.
\<close>

theorem only_enc_files_listed:
  "getThoughtMetadata env dir (Some es) = getThoughtMetadata env dir (Some (encEntries es)) \<and>
   getStorageStats env dir (Some es) = getStorageStats env dir (Some (encEntries es)) \<and>
   (\<forall>ts. getThoughtMetadata env dir (Some es) = Inr ts \<longrightarrow>
      (\<forall>t\<in>set ts. \<exists>n. n \<in> fst ` set es \<and> endsWith n ''.enc'' \<and> filepath t = path_join dir n))"
proof (intro conjI allI impI ballI)
  show "getThoughtMetadata env dir (Some es) = getThoughtMetadata env dir (Some (encEntries es))"
    by (simp add: getThoughtMetadata_encEntries)
  then show "getStorageStats env dir (Some es) = getStorageStats env dir (Some (encEntries es))"
    by (simp add: getStorageStats_def)
next
  fix ts t
  assume ts: "getThoughtMetadata env dir (Some es) = Inr ts" and t: "t \<in> set ts"
  from ts obtain fps where fps: "getSavedFiles env dir (Some es) = Inr fps"
    and ts_eq: "ts = js_sort newestFirst (collectMetadata env dir (Some es) fps)"
    by (auto simp: getThoughtMetadata_def split: sum.splits)
  from t have "filepath t \<in> set fps"
    unfolding ts_eq by (simp add: set_js_sort filepath_collectMetadata)
  then show "\<exists>n. n \<in> fst ` set es \<and> endsWith n ''.enc'' \<and> filepath t = path_join dir n"
    using getSavedFiles_names [OF fps] by blast
qed

theorem only_enc_files_listed_witness:
  "getThoughtMetadata noFaults ''private'' (Some exampleEntries) = Inr exampleThoughts \<and>
   getThoughtMetadata noFaults ''private'' (Some (encEntries exampleEntries)) = Inr exampleThoughts \<and>
   getStorageStats noFaults ''private'' (Some exampleEntries) =
     getStorageStats noFaults ''private'' (Some (encEntries exampleEntries)) \<and>
   ''key.txt'' \<in> fst ` set exampleEntries \<and>
   ''key.txt'' \<notin> fst ` set (encEntries exampleEntries) \<and>
   (\<exists>n. n \<in> fst ` set exampleEntries \<and> endsWith n ''.enc'' \<and>
       filepath (hd exampleThoughts) = path_join ''private'' n) \<and>
   (\<exists>n. n \<in> fst ` set exampleEntries \<and> endsWith n ''.enc'' \<and>
       filepath (last exampleThoughts) = path_join ''private'' n)"
proof -
  have m: "getThoughtMetadata noFaults ''private'' (Some exampleEntries) = Inr exampleThoughts"
    using exampleDir_metadata by (simp add: exampleDir_def)
  note w = only_enc_files_listed [of noFaults "''private''" exampleEntries]
  have 1: "getThoughtMetadata noFaults ''private'' (Some (encEntries exampleEntries)) = Inr exampleThoughts"
    using w m by simp
  have 2: "getStorageStats noFaults ''private'' (Some exampleEntries) =
     getStorageStats noFaults ''private'' (Some (encEntries exampleEntries))"
    using w by blast
  have 3: "\<forall>t\<in>set exampleThoughts. \<exists>n. n \<in> fst ` set exampleEntries \<and> endsWith n ''.enc'' \<and>
       filepath t = path_join ''private'' n"
    using w m by blast
  have 4: "''key.txt'' \<in> fst ` set exampleEntries" by (simp add: exampleEntries_def)
  have 5: "''key.txt'' \<notin> fst ` set (encEntries exampleEntries)"
    by (simp add: encEntries_example)
  have 6: "hd exampleThoughts \<in> set exampleThoughts" "last exampleThoughts \<in> set exampleThoughts"
    by (simp_all add: exampleThoughts_def)
  show ?thesis using m 1 2 3 4 5 6 by blast
qed

subsection \<open>Statistics of a large store\<close>

lemma fs_stat_entry:
  assumes "stat_fault env (path_join dir n) = None" and "n \<in> fst ` set es"
  shows "\<exists>stats. fs_stat env dir (Some es) (path_join dir n) = Inr stats"
proof -
  have "map_of es n \<noteq> None" using assms(2) by (simp add: map_of_eq_None_iff)
  then show ?thesis
    using assms(1) by (auto simp: fs_stat_def map_of_joined split: option.splits)
qed

lemma length_enc_names:
  "length (filter (\<lambda>file. endsWith file ''.enc'') (map fst es)) = length (encEntries es)"
  by (induction es) (auto simp: encEntries_def)

lemma listing_length:
  assumes "readdir_fault env = None" and "\<And>p. stat_fault env p = None"
  shows "\<exists>ts. getThoughtMetadata env dir (Some es) = Inr ts \<and> length ts = length (encEntries es)"
proof -
  let ?names = "filter (\<lambda>file. endsWith file ''.enc'') (map fst es)"
  let ?fps = "map (path_join dir) ?names"
  have "\<exists>stats. fs_stat env dir (Some es) fp = Inr stats" if "fp \<in> set ?fps" for fp
  proof -
    from that obtain n where n: "n \<in> fst ` set es" and fp: "fp = path_join dir n" by auto
    show ?thesis unfolding fp using assms(2) n by (rule fs_stat_entry)
  qed
  then have "\<forall>fp\<in>set ?fps. \<exists>stats. fs_stat env dir (Some es) fp = Inr stats"
    by blast
  then have "filter (\<lambda>fp. \<exists>stats. fs_stat env dir (Some es) fp = Inr stats) ?fps = ?fps"
    by (rule filter_True)
  then have "length (collectMetadata env dir (Some es) ?fps) = length ?fps"
    by (simp only: length_collectMetadata)
  then have "length (js_sort newestFirst (collectMetadata env dir (Some es) ?fps))
               = length (encEntries es)"
    by (simp only: length_js_sort length_map length_enc_names)
  then show ?thesis using listing_without_fault [OF assms(1), of dir es] by simp
qed

lemma manyFiles_enc: "encEntries manyFiles = manyFiles"
  unfolding encEntries_def manyFiles_def
  by (rule filter_True) (auto simp: endsWith_def)

lemma length_manyFiles: "length manyFiles = 125001"
  by (simp add: manyFiles_def)

text \<open>
  Claim C6 says that on \<open>N > 0\<close> listed records the statistics are the count \<open>N\<close>, the sum
  of the sizes, and the least and the greatest timestamp. \<open>getStorageStats\<close> computes the two
  timestamps with \<open>Math.min(...timestamps)\<close> and \<open>Math.max(...timestamps)\<close>: when the store
  holds more thought files than the engine accepts arguments in a call, every file is
  listed, and \<open>getStorageStats\<close> fails with a \<open>RangeError\<close> instead of returning the
  aggregates.
\<close>

theorem getStorageStats_beyond_limit:
  assumes "readdir_fault env = None" and "\<forall>p. stat_fault env p = None"
      and "argument_limit env < length (encEntries es)"
  shows "\<exists>thoughts. getThoughtMetadata env dir (Some es) = Inr thoughts \<and>
           length thoughts = length (encEntries es) \<and>
           getStorageStats env dir (Some es) = Inl RangeError"
proof -
  obtain ts where ts: "getThoughtMetadata env dir (Some es) = Inr ts"
      and len: "length ts = length (encEntries es)"
    using listing_length [OF assms(1), of dir es] assms(2) by blast
  have "statsOf (argument_limit env) ts = Inl RangeError"
    using assms(3) len by (simp add: statsOf_beyond_limit)
  then have "getStorageStats env dir (Some es) = Inl RangeError"
    using ts by (simp add: getStorageStats_def)
  then show ?thesis using ts len by blast
qed

theorem getStorageStats_beyond_limit_witness:
  "readdir_fault noFaults = None \<and> stat_fault noFaults = (\<lambda>p. None) \<and>
   argument_limit noFaults = 125000 \<and> length (encEntries manyFiles) = 125001 \<and>
   (\<exists>thoughts. getThoughtMetadata noFaults ''private'' (Some manyFiles) = Inr thoughts \<and>
      length thoughts = 125001) \<and>
   getStorageStats noFaults ''private'' (Some manyFiles) = Inl RangeError"
proof -
  have h1: "readdir_fault noFaults = None" by (simp add: noFaults_def)
  have h2: "\<forall>p. stat_fault noFaults p = None" by (simp add: noFaults_def)
  have h2': "stat_fault noFaults = (\<lambda>p. None)" by (simp add: noFaults_def)
  have h3: "argument_limit noFaults = 125000" by (simp add: noFaults_def)
  have n: "length (encEntries manyFiles) = 125001"
    by (simp only: manyFiles_enc length_manyFiles)
  have lt: "argument_limit noFaults < length (encEntries manyFiles)"
    by (simp add: n h3)
  note w = getStorageStats_beyond_limit [OF h1 h2 lt, of "''private''"]
  have "\<exists>thoughts. getThoughtMetadata noFaults ''private'' (Some manyFiles) = Inr thoughts \<and>
      length thoughts = 125001"
    using w n by auto
  moreover have "getStorageStats noFaults ''private'' (Some manyFiles) = Inl RangeError"
    using w by blast
  ultimately show ?thesis using h1 h2' h3 n by blast
qed

subsection \<open>The listing\<close>

lemma statFails_metadata:
  "getThoughtMetadata statFails ''private'' (Some exampleEntries) = Inr [hd exampleThoughts]"
  by (simp add: storage_eval statFails_def)

text \<open>
  Claim C7, as amended. When \<open>readdir\<close> reports no fault, \<open>getThoughtMetadata\<close>
  returns the empty list for a missing directory. For an existing directory it returns,
  without failing, exactly the records of the \<open>.enc\<close> files whose \<open>stat\<close> succeeds (a
  file whose \<open>stat\<close> fails is left out), sorted by descending timestamp where equal
  timestamps may stand side by side; the order is strictly descending when the
  timestamps are pairwise different.
\<close>

theorem getThoughtMetadata_listing:
  assumes "readdir_fault env = None"
  shows "getThoughtMetadata env dir None = Inr [] \<and>
    (\<exists>ts. getThoughtMetadata env dir (Some es) = Inr ts \<and>
       set ts = {metadataOf fp stats | fp stats.
                   fp \<in> set (map (path_join dir) (filter (\<lambda>file. endsWith file ''.enc'') (map fst es)))
                   \<and> fs_stat env dir (Some es) fp = Inr stats} \<and>
       length ts = length (filter (\<lambda>fp. \<exists>stats. fs_stat env dir (Some es) fp = Inr stats)
                     (map (path_join dir) (filter (\<lambda>file. endsWith file ''.enc'') (map fst es)))) \<and>
       sorted_wrt (\<lambda>a b. timestamp a \<ge> timestamp b) ts \<and>
       (distinct (map timestamp ts) \<longrightarrow> sorted_wrt (\<lambda>a b. timestamp a > timestamp b) ts))"
proof
  show "getThoughtMetadata env dir None = Inr []"
    using assms by (simp add: getThoughtMetadata_def getSavedFiles_def fs_readdir_def js_sort_def)
next
  let ?fps = "map (path_join dir) (filter (\<lambda>file. endsWith file ''.enc'') (map fst es))"
  let ?ts = "js_sort newestFirst (collectMetadata env dir (Some es) ?fps)"
  have 1: "getThoughtMetadata env dir (Some es) = Inr ?ts"
    using assms by (rule listing_without_fault)
  have 2: "set ?ts = {metadataOf fp stats | fp stats.
                   fp \<in> set ?fps \<and> fs_stat env dir (Some es) fp = Inr stats}"
    by (simp only: set_js_sort set_collectMetadata)
  have 3: "length ?ts = length (filter (\<lambda>fp. \<exists>stats. fs_stat env dir (Some es) fp = Inr stats) ?fps)"
    by (simp only: length_js_sort length_collectMetadata)
  have 4: "sorted_wrt (\<lambda>a b. timestamp a \<ge> timestamp b) ?ts"
    using js_sort_newestFirst [of "collectMetadata env dir (Some es) ?fps"]
    by (simp add: newestFirstOrder_def)
  have 5: "distinct (map timestamp ?ts) \<longrightarrow> sorted_wrt (\<lambda>a b. timestamp a > timestamp b) ?ts"
    using strict_of_distinct [OF 4] by blast
  show "\<exists>ts. getThoughtMetadata env dir (Some es) = Inr ts \<and>
       set ts = {metadataOf fp stats | fp stats. fp \<in> set ?fps \<and> fs_stat env dir (Some es) fp = Inr stats} \<and>
       length ts = length (filter (\<lambda>fp. \<exists>stats. fs_stat env dir (Some es) fp = Inr stats) ?fps) \<and>
       sorted_wrt (\<lambda>a b. timestamp a \<ge> timestamp b) ts \<and>
       (distinct (map timestamp ts) \<longrightarrow> sorted_wrt (\<lambda>a b. timestamp a > timestamp b) ts)"
    using 1 2 3 4 5 by blast
qed

theorem getThoughtMetadata_listing_witness:
  "readdir_fault statFails = None \<and>
   getThoughtMetadata statFails ''private'' None = Inr [] \<and>
   getThoughtMetadata statFails ''private'' (Some exampleEntries) = Inr [hd exampleThoughts] \<and>
   length [hd exampleThoughts] = length (filter (\<lambda>fp. \<exists>stats. fs_stat statFails ''private'' (Some exampleEntries) fp = Inr stats)
                     (map (path_join ''private'') (filter (\<lambda>file. endsWith file ''.enc'') (map fst exampleEntries)))) \<and>
   readdir_fault noFaults = None \<and>
   getThoughtMetadata noFaults ''private'' (Some exampleEntries) = Inr exampleThoughts \<and>
   distinct (map timestamp exampleThoughts) \<and>
   sorted_wrt (\<lambda>a b. timestamp a \<ge> timestamp b) exampleThoughts \<and>
   sorted_wrt (\<lambda>a b. timestamp a > timestamp b) exampleThoughts"
proof -
  have h1: "readdir_fault statFails = None" by (simp add: statFails_def)
  have h2: "readdir_fault noFaults = None" by (simp add: noFaults_def)
  have m1: "getThoughtMetadata statFails ''private'' (Some exampleEntries) = Inr [hd exampleThoughts]"
    by (rule statFails_metadata)
  have m2: "getThoughtMetadata noFaults ''private'' (Some exampleEntries) = Inr exampleThoughts"
    using exampleDir_metadata by (simp add: exampleDir_def)
  have d: "distinct (map timestamp exampleThoughts)" by (simp add: exampleThoughts_def)
  note w1 = getThoughtMetadata_listing [OF h1, of "''private''" exampleEntries]
  note w2 = getThoughtMetadata_listing [OF h2, of "''private''" exampleEntries]
  have a: "getThoughtMetadata statFails ''private'' None = Inr []" using w1 by blast
  have b: "length [hd exampleThoughts] = length (filter (\<lambda>fp. \<exists>stats. fs_stat statFails ''private'' (Some exampleEntries) fp = Inr stats)
                     (map (path_join ''private'') (filter (\<lambda>file. endsWith file ''.enc'') (map fst exampleEntries))))"
    using w1 m1 by auto
  have c: "sorted_wrt (\<lambda>a b. timestamp a \<ge> timestamp b) exampleThoughts \<and>
   sorted_wrt (\<lambda>a b. timestamp a > timestamp b) exampleThoughts"
    using w2 m2 d by auto
  show ?thesis using h1 h2 m1 m2 d a b c by blast
qed

lemma tieDir_metadata:
  "getThoughtMetadata (noFaults) ''private'' tieDir = Inr tieThoughts"
  by (simp add: storage_eval tieDir_def tieThoughts_def)

text \<open>
  Counterexample to C7 as stated: two thought files with the same modification time are
  both listed, so the result is not strictly descending.
\<close>

theorem listing_not_strictly_descending:
  "getThoughtMetadata (noFaults) ''private'' tieDir = Inr tieThoughts \<and>
   \<not> sorted_wrt (\<lambda>a b. timestamp a > timestamp b) tieThoughts"
  by (simp add: tieDir_metadata) (simp add: tieThoughts_def)

subsection \<open>File names\<close>

lemma pad_numeral: "pad (numeral k) n = pad (pred_numeral k) (n div 10) @ [digit_char n]"
  by (simp only: numeral_eq_Suc pad.simps)

lemma toISOString_example: "toISOString exampleDate = ''2024-04-08T23:52:34.984Z''"
  by (simp add: toISOString_def exampleDate_def pad_numeral digit_char_def)

lemma generateFilename_example:
  "generateFilename exampleDate = ''private_thought_20240408235234.enc''"
  by (simp add: generateFilename_def toISOString_example)

lemma digit_char_digit: "digit_char d \<in> set ''0123456789''"
  unfolding digit_char_def by (rule nth_mem) simp

lemma set_pad: "set (pad w n) \<subseteq> set ''0123456789''"
proof (induction w arbitrary: n)
  case 0
  show ?case by simp
next
  case (Suc w)
  have "set (pad w (n div 10)) \<subseteq> set ''0123456789''" by (rule Suc.IH)
  moreover have "digit_char n \<in> set ''0123456789''" by (rule digit_char_digit)
  ultimately show ?case by simp
qed

lemma pad_no_slash: "CHR ''/'' \<notin> set (pad w n)"
  using set_pad [of w n] by auto

lemma toISOString_no_slash: "CHR ''/'' \<notin> set (toISOString dt)"
  by (simp add: toISOString_def pad_no_slash)

lemma generateFilename_no_slash: "CHR ''/'' \<notin> set (generateFilename now)"
proof -
  have "CHR ''/'' \<notin> set (take 14 (filter (\<lambda>c. c \<notin> set ''-:T.Z'') (toISOString now)))"
    using toISOString_no_slash [of now] by (auto dest: in_set_takeD)
  then show ?thesis by (simp add: generateFilename_def)
qed

lemma generateFilename_enc: "endsWith (generateFilename now) ''.enc''"
  by (simp add: generateFilename_def endsWith_def)

lemma generateFilename_nonempty: "generateFilename now \<noteq> []"
  by (simp add: generateFilename_def)

lemma basename_plain:
  assumes "CHR ''/'' \<notin> set name" and "name \<noteq> []"
  shows "basename name = name"
proof -
  obtain c cs where rn: "rev name = c # cs" using assms(2) by (cases "rev name") auto
  have "c \<in> set name" using rn by (metis list.set_intros(1) set_rev)
  then have c: "c \<noteq> CHR ''/''" using assms(1) by auto
  have d: "dropWhile (\<lambda>c. c = CHR ''/'') (rev name) = rev name"
    using rn c by simp
  have "\<forall>x\<in>set (rev name). x \<noteq> CHR ''/''" using assms(1) by auto
  then have t: "takeWhile (\<lambda>c. c \<noteq> CHR ''/'') (rev name) = rev name"
    by (simp only: takeWhile_eq_all_conv)
  show ?thesis unfolding basename_def by (simp only: d t rev_rev_ident)
qed

lemma path_join_prefix:
  "\<exists>pre. (pre = [] \<or> last pre = CHR ''/'') \<and> (\<forall>name. path_join dir name = pre @ name)"
proof (cases "dir = [] \<or> path_normalize dir = ''.'' \<or> path_normalize dir = ''./''")
  case True
  then have "\<forall>name. path_join dir name = [] @ name"
    by (auto simp: path_join_def Let_def)
  then show ?thesis by blast
next
  case False
  show ?thesis
  proof (cases "last (path_normalize dir) = CHR ''/''")
    case True
    with False have "\<forall>name. path_join dir name = path_normalize dir @ name"
      by (simp add: path_join_def Let_def)
    with True show ?thesis by blast
  next
    case no_slash: False
    with False have "\<forall>name. path_join dir name = (path_normalize dir @ ''/'') @ name"
      by (simp add: path_join_def Let_def)
    moreover have "last (path_normalize dir @ ''/'') = CHR ''/''" by simp
    ultimately show ?thesis by blast
  qed
qed

lemma basename_path_join:
  assumes "CHR ''/'' \<notin> set name" and "name \<noteq> []"
  shows "basename (path_join dir name) = name"
proof -
  obtain pre where pre: "pre = [] \<or> last pre = CHR ''/''"
      and joined: "path_join dir name = pre @ name"
    using path_join_prefix [of dir] by blast
  obtain c cs where rn: "rev name = c # cs" using assms(2) by (cases "rev name") auto
  have "c \<in> set name" using rn by (metis list.set_intros(1) set_rev)
  then have c: "c \<noteq> CHR ''/''" using assms(1) by auto
  have d: "dropWhile (\<lambda>c. c = CHR ''/'') (rev name @ rev pre) = rev name @ rev pre"
    using rn c by simp
  have stop: "takeWhile (\<lambda>c. c \<noteq> CHR ''/'') (rev pre) = []"
  proof (cases "pre = []")
    case True
    then show ?thesis by simp
  next
    case False
    then have "last pre = CHR ''/''" using pre by simp
    then have "hd (rev pre) = CHR ''/''" using False by (simp add: hd_rev)
    moreover have "rev pre \<noteq> []" using False by simp
    ultimately show ?thesis by (cases "rev pre") auto
  qed
  have "\<And>x. x \<in> set (rev name) \<Longrightarrow> x \<noteq> CHR ''/''" using assms(1) by auto
  then have "takeWhile (\<lambda>c. c \<noteq> CHR ''/'') (rev name @ rev pre)
             = rev name @ takeWhile (\<lambda>c. c \<noteq> CHR ''/'') (rev pre)"
    by (rule takeWhile_append2)
  then have t: "takeWhile (\<lambda>c. c \<noteq> CHR ''/'') (rev name @ rev pre) = rev name"
    using stop by simp
  show ?thesis unfolding basename_def joined by (simp only: rev_append d t rev_rev_ident)
qed

lemma basename_generated:
  "basename (path_join dir (generateFilename now)) = generateFilename now"
  by (rule basename_path_join [OF generateFilename_no_slash generateFilename_nonempty])

lemma map_of_upsert: "map_of (upsert name node es) name = Some node"
  by (induction name node es rule: upsert.induct) auto

lemma names_upsert:
  "map fst (upsert name node es) =
     (if name \<in> set (map fst es) then map fst es else map fst es @ [name])"
  by (induction name node es rule: upsert.induct) auto

lemma name_in_upsert: "name \<in> set (map fst (upsert name node es))"
  by (simp add: names_upsert)

subsection \<open>A save followed by a listing\<close>

lemma save_result:
  assumes "saveEncryptedThought env dir d blob = Inr (thought, d')"
  shows "blob \<noteq> [] \<and>
     d' = Some (upsert (generateFilename (date_new env))
                  \<lparr>content = blob, mtimeMs = write_mtime env\<rparr>
                  (case d of None \<Rightarrow> [] | Some es \<Rightarrow> es)) \<and>
     thought = \<lparr>id_st = basename_ext (generateFilename (date_new env)) ''.enc'',
                filepath = path_join dir (generateFilename (date_new env)),
                timestamp = real_of_int (date_now env), sizeBytes = length blob\<rparr>"
proof -
  let ?fn = "generateFilename (date_new env)"
  have bn: "basename (path_join dir ?fn) = ?fn"
    by (rule basename_generated)
  show ?thesis
    using assms
    by (auto simp: saveEncryptedThought_def ensurePrivateDirectory_def fs_writeFile_def Let_def bn
             split: if_splits option.splits sum.splits)
qed

lemma exampleSave_result:
  "saveEncryptedThought exampleSave ''private'' None exampleBlob = Inr (savedThought, savedDir)"
  by (simp add: saveEncryptedThought_def ensurePrivateDirectory_def fs_writeFile_def exampleSave_def
        exampleBlob_def savedThought_def savedDir_def generateFilename_example basename_generated [of "''private''" exampleDate, simplified generateFilename_example]
        path_join_private basename_ext_def basename_def endsWith_def Let_def)

lemma savedDir_metadata:
  "getThoughtMetadata noFaults ''private'' savedDir = Inr [listedThought]"
  by (simp add: getThoughtMetadata_def getSavedFiles_def fs_readdir_def noFaults_def
        savedDir_def listedThought_def exampleBlob_def endsWith_def path_join_private fs_stat_def
        basename_def basename_ext_def js_sort_def)

text \<open>
  Claim C5, as amended. After a successful save, a listing that can \<open>stat\<close> the unchanged
  file returns a record for its path, and every such record agrees with the record that
  the save returned in \<open>id\<close> and \<open>sizeBytes\<close>. Its timestamp is the modification time of
  the file, while the save reports the reading of \<open>Date.now()\<close> taken after the write:
  the two records are equal exactly when these two times coincide.
\<close>

theorem save_then_list:
  assumes save: "saveEncryptedThought env dir d blob = Inr (thought, d')"
      and rd: "readdir_fault lenv = None"
      and st: "stat_fault lenv (filepath thought) = None"
  shows "timestamp thought = real_of_int (date_now env) \<and>
     (\<exists>ts. getThoughtMetadata lenv dir d' = Inr ts \<and>
        (\<exists>r\<in>set ts. filepath r = filepath thought) \<and>
        (\<forall>r\<in>set ts. filepath r = filepath thought \<longrightarrow>
            id_st r = id_st thought \<and> sizeBytes r = sizeBytes thought \<and>
            timestamp r = write_mtime env \<and>
            (r = thought \<longleftrightarrow> write_mtime env = real_of_int (date_now env))))"
proof -
  let ?fn = "generateFilename (date_new env)"
  let ?fp = "path_join dir ?fn"
  let ?node = "\<lparr>content = blob, mtimeMs = write_mtime env\<rparr>"
  define es where "es = (case d of None \<Rightarrow> [] | Some es \<Rightarrow> es)"
  from save_result [OF save] have
        d': "d' = Some (upsert ?fn ?node es)"
    and th: "thought = \<lparr>id_st = basename_ext ?fn ''.enc'', filepath = ?fp,
                timestamp = real_of_int (date_now env), sizeBytes = length blob\<rparr>"
    unfolding es_def by blast+
  let ?es = "upsert ?fn ?node es"
  let ?fps = "map (path_join dir) (filter (\<lambda>file. endsWith file ''.enc'') (map fst ?es))"
  let ?ts = "js_sort newestFirst (collectMetadata lenv dir (Some ?es) ?fps)"
  have fp: "filepath thought = ?fp" using th by simp
  have bn: "basename ?fp = ?fn"
    by (rule basename_generated)
  have listing: "getThoughtMetadata lenv dir d' = Inr ?ts"
    unfolding d' using rd by (rule listing_without_fault)
  have stat: "fs_stat lenv dir (Some ?es) ?fp =
                Inr \<lparr>st_mtimeMs = write_mtime env, st_size = length blob\<rparr>"
    using st fp by (simp add: fs_stat_def map_of_joined map_of_upsert)
  have "?fn \<in> set (filter (\<lambda>file. endsWith file ''.enc'') (map fst ?es))"
    using name_in_upsert [of ?fn ?node es] generateFilename_enc [of "date_new env"] by simp
  then have mem: "?fp \<in> set ?fps" by simp
  have set_ts: "set ?ts = {metadataOf p stats | p stats.
                   p \<in> set ?fps \<and> fs_stat lenv dir (Some ?es) p = Inr stats}"
    by (simp only: set_js_sort set_collectMetadata)
  have ex: "\<exists>r\<in>set ?ts. filepath r = filepath thought"
  proof
    show "metadataOf ?fp \<lparr>st_mtimeMs = write_mtime env, st_size = length blob\<rparr> \<in> set ?ts"
      unfolding set_ts using mem stat by blast
    show "filepath (metadataOf ?fp \<lparr>st_mtimeMs = write_mtime env, st_size = length blob\<rparr>)
            = filepath thought"
      by (simp add: metadataOf_def fp)
  qed
  have all: "\<forall>r\<in>set ?ts. filepath r = filepath thought \<longrightarrow>
            id_st r = id_st thought \<and> sizeBytes r = sizeBytes thought \<and>
            timestamp r = write_mtime env \<and>
            (r = thought \<longleftrightarrow> write_mtime env = real_of_int (date_now env))"
  proof (intro ballI impI)
    fix r assume r: "r \<in> set ?ts" and same: "filepath r = filepath thought"
    from r obtain p stats where p: "r = metadataOf p stats"
        and pstat: "fs_stat lenv dir (Some ?es) p = Inr stats"
      unfolding set_ts by blast
    have "p = ?fp" using same p fp by (simp add: metadataOf_def)
    then have stats: "stats = \<lparr>st_mtimeMs = write_mtime env, st_size = length blob\<rparr>"
      using pstat stat by simp
    have r_eq: "r = \<lparr>id_st = basename_ext ?fn ''.enc'', filepath = ?fp,
                     timestamp = write_mtime env, sizeBytes = length blob\<rparr>"
      using p \<open>p = ?fp\<close> stats by (simp add: metadataOf_def bn)
    show "id_st r = id_st thought \<and> sizeBytes r = sizeBytes thought \<and>
            timestamp r = write_mtime env \<and>
            (r = thought \<longleftrightarrow> write_mtime env = real_of_int (date_now env))"
      unfolding r_eq th by simp
  qed
  have "timestamp thought = real_of_int (date_now env)" using th by simp
  then show ?thesis using listing ex all by blast
qed

theorem save_then_list_witness:
  "saveEncryptedThought exampleSave ''private'' None exampleBlob = Inr (savedThought, savedDir) \<and>
   readdir_fault noFaults = None \<and> stat_fault noFaults (filepath savedThought) = None \<and>
   timestamp savedThought = real_of_int (date_now exampleSave) \<and>
   getThoughtMetadata noFaults ''private'' savedDir = Inr [listedThought] \<and>
   filepath listedThought = filepath savedThought \<and>
   id_st listedThought = id_st savedThought \<and>
   sizeBytes listedThought = sizeBytes savedThought \<and>
   timestamp listedThought = write_mtime exampleSave \<and>
   (listedThought = savedThought \<longleftrightarrow> write_mtime exampleSave = real_of_int (date_now exampleSave))"
proof -
  have h1: "saveEncryptedThought exampleSave ''private'' None exampleBlob = Inr (savedThought, savedDir)"
    by (rule exampleSave_result)
  have h2: "readdir_fault noFaults = None" by (simp add: noFaults_def)
  have h3: "stat_fault noFaults (filepath savedThought) = None" by (simp add: noFaults_def)
  have m: "getThoughtMetadata noFaults ''private'' savedDir = Inr [listedThought]"
    by (rule savedDir_metadata)
  have f: "filepath listedThought = filepath savedThought"
    by (simp add: savedThought_def listedThought_def)
  note w = save_then_list [OF h1 h2 h3]
  have "id_st listedThought = id_st savedThought \<and>
   sizeBytes listedThought = sizeBytes savedThought \<and>
   timestamp listedThought = write_mtime exampleSave \<and>
   (listedThought = savedThought \<longleftrightarrow> write_mtime exampleSave = real_of_int (date_now exampleSave))"
    using w m f by auto
  moreover have "timestamp savedThought = real_of_int (date_now exampleSave)" using w by blast
  ultimately show ?thesis using h1 h2 h3 m f by blast
qed

text \<open>
  Counterexample to C5 as stated: the record returned by the save and the record listed
  afterwards for the same, unchanged file carry different timestamps.
\<close>

theorem save_and_list_disagree:
  "saveEncryptedThought exampleSave ''private'' None exampleBlob = Inr (savedThought, savedDir) \<and>
   getThoughtMetadata noFaults ''private'' savedDir = Inr [listedThought] \<and>
   filepath listedThought = filepath savedThought \<and>
   id_st listedThought = id_st savedThought \<and>
   sizeBytes listedThought = sizeBytes savedThought \<and>
   timestamp listedThought \<noteq> timestamp savedThought"
  by (simp add: exampleSave_result savedDir_metadata) (simp add: savedThought_def listedThought_def)

section \<open>Properties of the encryption manager\<close>

subsection \<open>Blocks, chaining and padding\<close>

lemma blocksOf_Nil: "blocksOf [] = []"
  by (simp add: blocksOf.simps)

lemma blocksOf_Cons: "blocksOf (x # xs) = take 16 (x # xs) # blocksOf (drop 16 (x # xs))"
  by (subst blocksOf.simps) simp



lemma concat_blocksOf: "concat (blocksOf xs) = xs"
proof (induction xs rule: blocksOf.induct)
  case (1 xs)
  show ?case
  proof (cases "xs = []")
    case True
    then show ?thesis by (simp add: blocksOf_Nil)
  next
    case False
    then have "blocksOf xs = take 16 xs # blocksOf (drop 16 xs)"
      by (subst blocksOf.simps) simp
    then show ?thesis using 1 False by simp
  qed
qed

lemma blocksOf_lengths:
  "length xs mod 16 = 0 \<Longrightarrow> \<forall>b\<in>set (blocksOf xs). length b = 16"
proof (induction xs rule: blocksOf.induct)
  case (1 xs)
  show ?case
  proof (cases "xs = []")
    case True
    then show ?thesis by (simp add: blocksOf_Nil)
  next
    case False
    have eq: "blocksOf xs = take 16 xs # blocksOf (drop 16 xs)"
      using False by (subst blocksOf.simps) simp
    have ge: "16 \<le> length xs"
    proof (rule ccontr)
      assume "\<not> 16 \<le> length xs"
      then have "length xs mod 16 = length xs" by simp
      then show False using "1.prems" False by simp
    qed
    have "(length xs - 16) mod 16 = length xs mod 16"
      using ge by (rule le_mod_geq [symmetric])
    then have "(length xs - 16) mod 16 = 0"
      by (simp only: "1.prems")
    then have "length (drop 16 xs) mod 16 = 0"
      by (simp only: length_drop)
    then have "\<forall>b\<in>set (blocksOf (drop 16 xs)). length b = 16"
      by (rule "1.IH" [OF False])
    moreover have "length (take 16 xs) = 16" using ge by simp
    ultimately show ?thesis by (simp only: eq list.set ball_simps)
  qed
qed

lemma length_concat_blocks:
  "\<forall>b\<in>set bs. length b = 16 \<Longrightarrow> length (concat bs) = 16 * length bs"
  by (induction bs) simp_all

lemma length_xor_bytes: "length (xor_bytes a b) = min (length a) (length b)"
  by (simp add: xor_bytes_def)

lemma xor_bytes_cancel:
  "length a = length b \<Longrightarrow> xor_bytes (xor_bytes a b) b = a"
proof (induction a arbitrary: b)
  case Nil
  then show ?case by (simp add: xor_bytes_def)
next
  case (Cons x a)
  then obtain y b' where b: "b = y # b'" by (cases b) auto
  have "xor_bytes (xor_bytes a b') b' = a" using Cons b by simp
  then show ?case unfolding b by (simp add: xor_bytes_def xor.assoc)
qed

lemma cbc_encrypt_lengths:
  assumes "\<And>b. length b = 16 \<Longrightarrow> length (f b) = 16"
  shows "length prev = 16 \<Longrightarrow> \<forall>p\<in>set ps. length p = 16
           \<Longrightarrow> \<forall>c\<in>set (cbc_encrypt f prev ps). length c = 16"
proof (induction ps arbitrary: prev)
  case Nil
  show ?case by simp
next
  case (Cons p ps)
  have c: "length (f (xor_bytes p prev)) = 16"
    using Cons.prems by (simp add: assms length_xor_bytes)
  have ps: "\<forall>p\<in>set ps. length p = 16" using Cons.prems(2) by simp
  have "\<forall>c\<in>set (cbc_encrypt f (f (xor_bytes p prev)) ps). length c = 16"
    by (rule Cons.IH [OF c ps])
  then show ?case using c by (simp add: Let_def)
qed

lemma length_cbc_encrypt: "length (cbc_encrypt f prev ps) = length ps"
  by (induction ps arbitrary: prev) (simp_all add: Let_def)


lemma unat_byte_of_nat: "n < 256 \<Longrightarrow> unat (of_nat n :: byte) = n"
  by (simp add: unat_of_nat)

lemma pad_arith: "(n::nat) + (16 - n mod 16) = 16 * (n div 16 + 1)"
  by presburger

lemma length_pkcs7_pad: "length (pkcs7_pad data) = 16 * (length data div 16 + 1)"
  using pad_arith [of "length data"] by (simp add: pkcs7_pad_def Let_def)


text \<open>
  With a block transformation that its inverse undoes, a 32-byte key, a 16-byte IV and
  data that \<open>update\<close> accepts, the cipher does not fail and its output is a whole number
  of blocks, one more than the whole blocks of the input.
\<close>

lemma cipher_blocks:
  assumes ok: "block_cipher_ok bc" and k: "length k = 32" and iv: "length iv = 16"
  shows "\<forall>c\<in>set (cbc_encrypt (encipher bc k) iv (blocksOf (pkcs7_pad data))). length c = 16"
    and "length (cbc_ciphertext bc k iv data) = 16 * (length data div 16 + 1)"
proof -
  let ?ps = "blocksOf (pkcs7_pad data)"
  let ?cs = "cbc_encrypt (encipher bc k) iv ?ps"
  have fg: "\<And>b. length b = 16 \<Longrightarrow> length (encipher bc k b) = 16"
    using ok k by (simp add: block_cipher_ok_def)
  have m0: "length (pkcs7_pad data) mod 16 = 0" by (simp add: length_pkcs7_pad)
  have ps16: "\<forall>p\<in>set ?ps. length p = 16" using m0 by (rule blocksOf_lengths)
  show cs16: "\<forall>c\<in>set ?cs. length c = 16"
    using fg iv ps16 by (intro cbc_encrypt_lengths) simp_all
  have "concat ?ps = pkcs7_pad data" by (rule concat_blocksOf)
  then have "length (concat ?ps) = 16 * (length data div 16 + 1)"
    by (simp only: length_pkcs7_pad)
  moreover have "length (concat ?ps) = 16 * length ?ps"
    using ps16 by (rule length_concat_blocks)
  moreover have "length (concat ?cs) = 16 * length ?cs"
    using cs16 by (rule length_concat_blocks)
  ultimately show "length (concat ?cs) = 16 * (length data div 16 + 1)"
    by (simp add: length_cbc_encrypt)
qed

lemma cipher_run_result:
  assumes ok: "block_cipher_ok bc" and k: "length k = 32" and iv: "length iv = 16"
      and fit: "length data \<le> max_input bc"
  shows "cipher_run bc k iv data = Inr (cbc_ciphertext bc k iv data)
           \<and> length (cbc_ciphertext bc k iv data) = 16 * (length data div 16 + 1)"
  using k iv fit cipher_blocks(2) [OF ok k iv, of data] by (simp add: cipher_run_def)


subsection \<open>UTF-8\<close>

lemma decode_ascii: "u < 0x80 \<Longrightarrow> utf8_decode (u # bs) = u # utf8_decode bs"
  by simp

















subsection \<open>\<open>encrypt\<close> followed by \<open>decrypt\<close>\<close>

lemma randomBytes_16: "randomBytes rng 16 = Inr (map rng [0..<16])"
  by (simp add: randomBytes_def)

lemma randomBytes_in_range:
  "0 \<le> n \<Longrightarrow> n \<le> 2147483647 \<Longrightarrow> randomBytes rng n = Inr (map rng [0..<nat n])"
  by (simp add: randomBytes_def)

lemma randomBytes_out_of_range:
  "n < 0 \<or> 2147483647 < n \<Longrightarrow> randomBytes rng n = Inl RangeError"
  by (auto simp: randomBytes_def)

lemma encrypt_result:
  assumes ok: "block_cipher_ok bc" and k: "length (key m) = 32"
      and fit: "length (dataBufferOf d) \<le> max_input bc"
  shows "encrypt bc rng m d =
           Inr (map rng [0..<16] @ cbc_ciphertext bc (key m) (map rng [0..<16]) (dataBufferOf d))
         \<and> length (cbc_ciphertext bc (key m) (map rng [0..<16]) (dataBufferOf d))
             = 16 * (length (dataBufferOf d) div 16 + 1)"
proof -
  have iv: "length (map rng [0..<16]) = 16" by simp
  note run = cipher_run_result [OF ok k iv fit]
  have "encrypt bc rng m d =
           Inr (map rng [0..<16] @ cbc_ciphertext bc (key m) (map rng [0..<16]) (dataBufferOf d))"
    using k run by (simp add: encrypt_def Let_def randomBytes_16)
  then show ?thesis using run by blast
qed




lemma decrypt_invalid_iff:
  "key m \<noteq> [] \<Longrightarrow>
     (decrypt bc maxLength m blob = Inl (EncryptionError INVALID_ENCRYPTED_DATA))
       = (length blob < 16)"
  by (auto simp: decrypt_def Let_def split: sum.splits)

subsection \<open>The padding\<close>

lemma byte_of_unat: "of_nat (unat (b::byte)) = b"
  by simp

lemma pkcs7_unpad_Some_iff:
  "pkcs7_unpad data = Some pt \<longleftrightarrow>
     (\<exists>n. 1 \<le> n \<and> n \<le> 16 \<and> data = pt @ replicate n (of_nat n))"
proof
  assume un: "pkcs7_unpad data = Some pt"
  define n where "n = unat (last data)"
  from un have ne: "data \<noteq> []" by (auto simp: pkcs7_unpad_def)
  from un ne have n: "n \<noteq> 0" "n \<le> 16" "n \<le> length data"
      and tail: "drop (length data - n) data = replicate n (last data)"
      and pt: "pt = take (length data - n) data"
    by (auto simp: pkcs7_unpad_def Let_def n_def split: if_splits)
  have "last data = of_nat n" unfolding n_def by (simp only: byte_of_unat)
  then have "data = pt @ replicate n (of_nat n)"
    using tail pt append_take_drop_id [of "length data - n" data] by simp
  then show "\<exists>n. 1 \<le> n \<and> n \<le> 16 \<and> data = pt @ replicate n (of_nat n)"
    using n by auto
next
  assume "\<exists>n. 1 \<le> n \<and> n \<le> 16 \<and> data = pt @ replicate n (of_nat n)"
  then obtain n where n: "1 \<le> n" "n \<le> 16" and data: "data = pt @ replicate n (of_nat n)"
    by blast
  have un: "unat (of_nat n :: byte) = n" using n by (simp add: unat_byte_of_nat)
  have ne: "pt @ replicate n (of_nat n :: byte) \<noteq> []" using n by auto
  have la: "last (pt @ replicate n (of_nat n :: byte)) = of_nat n" using n by simp
  show "pkcs7_unpad data = Some pt"
    unfolding data pkcs7_unpad_def using n ne by (simp add: la un Let_def)
qed

lemma pkcs7_unpad_None_iff:
  "pkcs7_unpad data = None \<longleftrightarrow>
     \<not> (\<exists>n pt. 1 \<le> n \<and> n \<le> 16 \<and> data = pt @ replicate n (of_nat n))"
proof (cases "pkcs7_unpad data")
  case None
  have "\<not> (\<exists>n pt. 1 \<le> n \<and> n \<le> 16 \<and> data = pt @ replicate n (of_nat n))"
  proof
    assume "\<exists>n pt. 1 \<le> n \<and> n \<le> 16 \<and> data = pt @ replicate n (of_nat n)"
    then obtain pt where "\<exists>n. 1 \<le> n \<and> n \<le> 16 \<and> data = pt @ replicate n (of_nat n)" by blast
    then have "pkcs7_unpad data = Some pt" by (simp only: pkcs7_unpad_Some_iff)
    with None show False by simp
  qed
  with None show ?thesis by simp
next
  case (Some pt)
  then have "\<exists>n. 1 \<le> n \<and> n \<le> 16 \<and> data = pt @ replicate n (of_nat n)"
    by (simp only: pkcs7_unpad_Some_iff)
  then have "\<exists>n pt. 1 \<le> n \<and> n \<le> 16 \<and> data = pt @ replicate n (of_nat n)" by blast
  with Some show ?thesis by simp
qed



subsection \<open>Running the examples\<close>

lemma exampleIV_bytes:
  "map exampleRng [0..<16] =
     [11, 18, 25, 32, 39, 46, 53, 60, 67, 74, 81, 88, 95, 102, 109, 116]"
  by (simp add: upt_rec exampleRng_def)

lemma exampleIV:
  "randomBytes exampleRng 16 =
     Inr [11, 18, 25, 32, 39, 46, 53, 60, 67, 74, 81, 88, 95, 102, 109, 116]"
  by (simp only: randomBytes_16 exampleIV_bytes)

lemma exampleKey_bytes:
  "exampleKey =
     [1, 4, 7, 10, 13, 16, 19, 22, 25, 28, 31, 34, 37, 40, 43, 46, 49, 52,
      55, 58, 61, 64, 67, 70, 73, 76, 79, 82, 85, 88, 91, 94]"
  by (simp add: exampleKey_def upt_rec)

lemma xorCipher_ok: "block_cipher_ok xorCipher"
proof -
  have "length (xor_bytes b (take 16 k)) = 16 \<and> xor_bytes (xor_bytes b (take 16 k)) (take 16 k) = b"
    if "length k = 32" "length b = 16" for k b :: buffer
  proof -
    have "length (take 16 k) = 16" using that by simp
    then show ?thesis using that by (simp add: length_xor_bytes xor_bytes_cancel)
  qed
  then show ?thesis by (simp add: block_cipher_ok_def xorCipher_def)
qed

lemma xorCipher_max_input: "max_input xorCipher = 2147483647"
  by (simp add: xorCipher_def)

lemma replicate_num: "replicate (numeral k) x = x # replicate (pred_numeral k) x"
  by (simp only: numeral_eq_Suc replicate.simps)

lemmas cipher_eval = replicate_num encrypt_def decrypt_def dataBufferOf_def cipher_run_def decipher_run_def
  pkcs7_pad_def pkcs7_unpad_def blocksOf_Cons blocksOf_Nil xorCipher_def xor_bytes_def
  exampleManager_def exampleKey_bytes exampleIV Let_def Buffer_from_utf8_def utf8_text_def
  toString_utf8_def kStringMaxLength_def

lemma encrypt_byte_FF:
  "encrypt xorCipher exampleRng exampleManager (Bytes [0xFF]) = Inr garbledBlob"
  by (simp add: cipher_eval garbledBlob_def)





lemma encrypt_empty:
  "encrypt xorCipher exampleRng exampleManager (Text []) = Inr emptyBlob"
  by (simp add: cipher_eval emptyBlob_def)

lemma decrypt_16:
  "decrypt xorCipher kStringMaxLength exampleManager (replicate 16 0)
     = Inl (EncryptionError DECRYPTION_FAILED)"
  by (simp add: decrypt_def decipher_run_def exampleManager_def exampleKey_bytes Let_def
        xorCipher_def)

lemma decrypt_17:
  "decrypt xorCipher kStringMaxLength exampleManager (replicate 17 0)
     = Inl (EncryptionError DECRYPTION_FAILED)"
  by (simp add: decrypt_def decipher_run_def exampleManager_def exampleKey_bytes Let_def
        xorCipher_def)

lemma decrypt_15:
  "decrypt xorCipher kStringMaxLength exampleManager (replicate 15 0)
     = Inl (EncryptionError INVALID_ENCRYPTED_DATA)"
  by (simp add: decrypt_def decipher_run_def exampleManager_def exampleKey_bytes Let_def)

lemma exampleKey_length: "length (key exampleManager) = 32"
  by (simp add: exampleManager_def exampleKey_bytes)










subsection \<open>The round trip\<close>




subsection \<open>The error contract of \<open>decrypt\<close>\<close>







subsection \<open>The format of a blob\<close>

text \<open>
  Claim C8, as amended. Every blob produced by \<open>encrypt\<close> is the 16-byte IV, the next 16
  bytes of the random source, followed by the ciphertext: the CBC encryption under that
  IV of the plaintext padded to whole 16-byte blocks, one block more than the whole
  blocks of the plaintext. So a blob has at least 32 bytes. The length check of \<open>decrypt\<close>
  rejects a blob, whatever its origin, exactly when it has fewer than 16 bytes.
\<close>

theorem encrypt_blob_format:
  assumes "block_cipher_ok bc" and "length (key m) = 32"
      and "length (dataBufferOf d) \<le> max_input bc"
  shows "encrypt bc rng m d =
           Inr (map rng [0..<16] @ cbc_ciphertext bc (key m) (map rng [0..<16]) (dataBufferOf d))
         \<and> length (map rng [0..<16]) = 16
         \<and> length (cbc_ciphertext bc (key m) (map rng [0..<16]) (dataBufferOf d))
             = 16 * (length (dataBufferOf d) div 16 + 1)
         \<and> 32 \<le> length (map rng [0..<16]
                          @ cbc_ciphertext bc (key m) (map rng [0..<16]) (dataBufferOf d))
         \<and> (\<forall>blob. (decrypt bc maxLength m blob = Inl (EncryptionError INVALID_ENCRYPTED_DATA))
                     = (length blob < 16))"
proof -
  note r = encrypt_result [OF assms, of rng]
  have ne: "key m \<noteq> []" using assms(2) by auto
  have "32 \<le> length (map rng [0..<16]
                      @ cbc_ciphertext bc (key m) (map rng [0..<16]) (dataBufferOf d))"
    using r by simp
  moreover have "\<forall>blob. (decrypt bc maxLength m blob = Inl (EncryptionError INVALID_ENCRYPTED_DATA))
                     = (length blob < 16)"
    using decrypt_invalid_iff [OF ne] by blast
  ultimately show ?thesis using r by simp
qed

theorem encrypt_blob_format_witness:
  "block_cipher_ok xorCipher \<and> length (key exampleManager) = 32 \<and>
   length (dataBufferOf (Bytes [0xFF])) \<le> max_input xorCipher \<and>
   encrypt xorCipher exampleRng exampleManager (Bytes [0xFF]) = Inr garbledBlob \<and>
   garbledBlob = map exampleRng [0..<16]
      @ cbc_ciphertext xorCipher (key exampleManager) (map exampleRng [0..<16]) (dataBufferOf (Bytes [0xFF])) \<and>
   length (drop 16 garbledBlob) = 16 * (length (dataBufferOf (Bytes [0xFF])) div 16 + 1) \<and>
   32 \<le> length garbledBlob \<and>
   decrypt xorCipher kStringMaxLength exampleManager (replicate 15 0)
     = Inl (EncryptionError INVALID_ENCRYPTED_DATA) \<and>
   decrypt xorCipher kStringMaxLength exampleManager (replicate 16 0)
     \<noteq> Inl (EncryptionError INVALID_ENCRYPTED_DATA) \<and>
   decrypt xorCipher kStringMaxLength exampleManager garbledBlob
     \<noteq> Inl (EncryptionError INVALID_ENCRYPTED_DATA)"
proof -
  have fit: "length (dataBufferOf (Bytes [0xFF])) \<le> max_input xorCipher"
    by (simp add: dataBufferOf_def xorCipher_max_input)
  note w = encrypt_blob_format [OF xorCipher_ok exampleKey_length fit,
      where rng = exampleRng and maxLength = kStringMaxLength]
  let ?ct = "cbc_ciphertext xorCipher (key exampleManager) (map exampleRng [0..<16])
               (dataBufferOf (Bytes [0xFF]))"
  have blob: "garbledBlob = map exampleRng [0..<16] @ ?ct"
    using w encrypt_byte_FF by simp
  have "length (map exampleRng [0..<16]) = 16" by simp
  then have "drop 16 garbledBlob = ?ct" unfolding blob by simp
  then have len: "length (drop 16 garbledBlob) = 16 * (length (dataBufferOf (Bytes [0xFF])) div 16 + 1)"
    using w by simp
  have l32: "32 \<le> length garbledBlob" using w blob by simp
  have check: "\<And>blob. (decrypt xorCipher kStringMaxLength exampleManager blob
                  = Inl (EncryptionError INVALID_ENCRYPTED_DATA)) = (length blob < 16)"
    using w by blast
  have c15: "decrypt xorCipher kStringMaxLength exampleManager (replicate 15 0)
     = Inl (EncryptionError INVALID_ENCRYPTED_DATA)"
    by (simp add: check)
  have c16: "decrypt xorCipher kStringMaxLength exampleManager (replicate 16 0)
     \<noteq> Inl (EncryptionError INVALID_ENCRYPTED_DATA)"
    by (simp add: check)
  have cg: "decrypt xorCipher kStringMaxLength exampleManager garbledBlob
     \<noteq> Inl (EncryptionError INVALID_ENCRYPTED_DATA)"
    using l32 by (simp add: check)
  show ?thesis
    using xorCipher_ok exampleKey_length fit encrypt_byte_FF blob len l32 c15 c16 cg by blast
qed

text \<open>
  Counterexample to C8 as stated: the blob of the empty plaintext, the shortest one, has
  32 bytes; a blob of 17 bytes cannot be decrypted; and a blob of 16 bytes is not
  rejected by the length check.
\<close>

theorem shortest_blob_is_not_17:
  "encrypt xorCipher exampleRng exampleManager (Text []) = Inr emptyBlob \<and>
   length emptyBlob = 32 \<and>
   decrypt xorCipher kStringMaxLength exampleManager (replicate 17 0)
     = Inl (EncryptionError DECRYPTION_FAILED) \<and>
   decrypt xorCipher kStringMaxLength exampleManager (replicate 16 0)
     \<noteq> Inl (EncryptionError INVALID_ENCRYPTED_DATA)"
  by (simp add: encrypt_empty decrypt_17 decrypt_16) (simp add: emptyBlob_def)

subsection \<open>Key initialisation\<close>

lemma createKey_regenerate:
  assumes "err = ErrnoException ENOENT \<or> err = EncryptionError INVALID_KEY_SIZE"
  shows "createKey b64 rng maxLength cfg env kf err =
           (if keySize cfg < 0 \<or> 2147483647 < keySize cfg then Inl RangeError
            else if maxLength < length (b64_encode b64 (map rng [0..<nat (keySize cfg)]))
            then Inl StringTooLong
            else case key_write_fault env of
                   Some e \<Rightarrow> Inl (ErrnoException e)
                 | None \<Rightarrow> Inr (map rng [0..<nat (keySize cfg)],
                                Some (b64_encode b64 (map rng [0..<nat (keySize cfg)]))))"
  using assms
  by (auto simp: createKey_def randomBytes_def toString_base64_def fs_writeKeyFile_def
           split: option.splits)

lemma createKey_rethrow:
  assumes "e \<noteq> ENOENT"
  shows "createKey b64 rng maxLength cfg env kf (ErrnoException e) = Inl (ErrnoException e)"
  using assms by (simp add: createKey_def)

lemma loadOrCreateKey_regenerate:
  assumes "(access_fault env = None \<and> kf = None) \<or>
     (access_fault env = None \<and> read_fault env = None \<and>
        (\<exists>txt. kf = Some txt \<and> int (length (b64_decode b64 (js_trim txt))) \<noteq> keySize cfg))"
  shows "loadOrCreateKey b64 rng maxLength cfg env kf =
           (if keySize cfg < 0 \<or> 2147483647 < keySize cfg then Inl RangeError
            else if maxLength < length (b64_encode b64 (map rng [0..<nat (keySize cfg)]))
            then Inl StringTooLong
            else case key_write_fault env of
                   Some e \<Rightarrow> Inl (ErrnoException e)
                 | None \<Rightarrow> Inr (map rng [0..<nat (keySize cfg)],
                                Some (b64_encode b64 (map rng [0..<nat (keySize cfg)]))))"
  using assms
  by (auto simp: loadOrCreateKey_def fs_access_def fs_readFile_def createKey_regenerate Let_def)

lemma freshKey_random: "map exampleRng [0..<32] = freshKey"
  by (simp add: upt_rec exampleRng_def freshKey_def)

lemma freshKey_base64: "b64_encode nodeBase64 freshKey = freshKeyText"
  by (simp add: nodeBase64_def freshKey_def freshKeyText_def b64_char_def)

lemma short_key_file:
  "length (b64_decode nodeBase64 (js_trim shortKeyText)) = 3"
  by (simp add: shortKeyText_def nodeBase64_def js_trim_def isWhiteSpace_def b64_value_def
        List.map_filter_simps)

lemma length_b64_enc: "length (b64_enc xs) = 4 * ((length xs + 2) div 3)"
proof (induction xs rule: b64_enc.induct)
  case (1 a b c rest)
  have "(5 + length rest) div 3 = Suc (Suc (Suc (length rest)) div 3)" by presburger
  then show ?case using 1 by simp
qed simp_all

lemma length_b64_encode: "length (b64_encode nodeBase64 buf) = 4 * ((length buf + 2) div 3)"
  by (simp add: nodeBase64_def length_b64_enc)

lemma initialize_huge_key:
  "initialize nodeBase64 exampleRng kStringMaxLength noKeyFaults hugeKeyManager None
     = Inl (EncryptionError INIT_FAILED)"
proof -
  have n: "keySize (config hugeKeyManager) = 2147483648"
    by (simp add: hugeKeyManager_def newEncryptionManager_def)
  have "loadOrCreateKey nodeBase64 exampleRng kStringMaxLength (config hugeKeyManager)
          noKeyFaults None = Inl RangeError"
    by (simp add: loadOrCreateKey_regenerate noKeyFaults_def n)
  then show ?thesis by (simp add: initialize_def)
qed

lemma initialize_huge_key_short_file:
  "initialize nodeBase64 exampleRng kStringMaxLength noKeyFaults hugeKeyManager
       (Some shortKeyText)
     = Inl (EncryptionError INIT_FAILED)"
proof -
  have n: "keySize (config hugeKeyManager) = 2147483648"
    by (simp add: hugeKeyManager_def newEncryptionManager_def)
  have "int (length (b64_decode nodeBase64 (js_trim shortKeyText)))
          \<noteq> keySize (config hugeKeyManager)"
    by (simp add: short_key_file n)
  then have "loadOrCreateKey nodeBase64 exampleRng kStringMaxLength (config hugeKeyManager)
          noKeyFaults (Some shortKeyText) = Inl RangeError"
    using loadOrCreateKey_regenerate
      [of noKeyFaults "Some shortKeyText" nodeBase64 "config hugeKeyManager"
          exampleRng kStringMaxLength]
    by (simp add: noKeyFaults_def n)
  then show ?thesis by (simp add: initialize_def)
qed

lemma initialize_big_key:
  "initialize nodeBase64 exampleRng kStringMaxLength noKeyFaults bigKeyManager None
     = Inl (EncryptionError INIT_FAILED)"
proof -
  have n: "keySize (config bigKeyManager) = 1073741824"
    by (simp add: bigKeyManager_def newEncryptionManager_def)
  have "loadOrCreateKey nodeBase64 exampleRng kStringMaxLength (config bigKeyManager)
          noKeyFaults None = Inl StringTooLong"
    by (simp add: loadOrCreateKey_regenerate noKeyFaults_def n length_b64_encode
          kStringMaxLength_def)
  then show ?thesis by (simp add: initialize_def)
qed

lemma initialize_write_fault:
  "initialize nodeBase64 exampleRng kStringMaxLength (noKeyFaults\<lparr>key_write_fault := Some EACCES\<rparr>)
       freshManager None
     = Inl (EncryptionError INIT_FAILED)"
proof -
  have n: "keySize (config freshManager) = 32"
    by (simp add: freshManager_def newEncryptionManager_def)
  have "loadOrCreateKey nodeBase64 exampleRng kStringMaxLength (config freshManager)
          (noKeyFaults\<lparr>key_write_fault := Some EACCES\<rparr>) None = Inl (ErrnoException EACCES)"
    by (simp add: loadOrCreateKey_regenerate noKeyFaults_def n length_b64_encode
          kStringMaxLength_def)
  then show ?thesis by (simp add: initialize_def)
qed

text \<open>
  Claim C3, as amended. When the key file is absent, or present with a base64-decoded
  length other than the configured key size, \<open>initialize\<close> generates a key of the
  configured size, the next bytes of the random source, writes its base64 text to the key
  file and adopts it, provided that the configured size is between 0 and \<open>2 ^ 31 - 1\<close>,
  that the base64 text fits into one string and that the write succeeds; otherwise
  \<open>initialize\<close> fails with \<open>INIT_FAILED\<close>. Any failure other than \<open>ENOENT\<close> of \<open>access\<close> or
  \<open>readFile\<close> on an existing key file makes \<open>initialize\<close> fail with \<open>INIT_FAILED\<close>.
\<close>

theorem initialize_key:
  "(((access_fault env = None \<and> kf = None) \<or>
     (access_fault env = None \<and> read_fault env = None \<and>
        (\<exists>txt. kf = Some txt
           \<and> int (length (b64_decode b64 (js_trim txt))) \<noteq> keySize (config m))))
    \<longrightarrow>
      (0 \<le> keySize (config m) \<and> keySize (config m) \<le> 2147483647
        \<and> length (b64_encode b64 (map rng [0..<nat (keySize (config m))])) \<le> maxLength
        \<and> key_write_fault env = None \<longrightarrow>
         initialize b64 rng maxLength env m kf =
           Inr (m\<lparr>key := map rng [0..<nat (keySize (config m))]\<rparr>,
                Some (b64_encode b64 (map rng [0..<nat (keySize (config m))])))
         \<and> int (length (map rng [0..<nat (keySize (config m))])) = keySize (config m)) \<and>
      (keySize (config m) < 0 \<or> 2147483647 < keySize (config m)
        \<or> maxLength < length (b64_encode b64 (map rng [0..<nat (keySize (config m))]))
        \<or> key_write_fault env \<noteq> None \<longrightarrow>
         initialize b64 rng maxLength env m kf = Inl (EncryptionError INIT_FAILED))) \<and>
   ((\<exists>txt e. kf = Some txt \<and> e \<noteq> ENOENT \<and>
        (access_fault env = Some e \<or> (access_fault env = None \<and> read_fault env = Some e)))
    \<longrightarrow> initialize b64 rng maxLength env m kf = Inl (EncryptionError INIT_FAILED))"
proof (intro conjI impI)
  let ?n = "keySize (config m)"
  let ?k = "map rng [0..<nat ?n]"
  assume h: "(access_fault env = None \<and> kf = None) \<or>
     (access_fault env = None \<and> read_fault env = None \<and>
        (\<exists>txt. kf = Some txt
           \<and> int (length (b64_decode b64 (js_trim txt))) \<noteq> keySize (config m)))"
  note load = loadOrCreateKey_regenerate [OF h, of rng maxLength]
  show "initialize b64 rng maxLength env m kf = Inr (m\<lparr>key := ?k\<rparr>, Some (b64_encode b64 ?k))"
    if "0 \<le> ?n \<and> ?n \<le> 2147483647 \<and> length (b64_encode b64 ?k) \<le> maxLength
        \<and> key_write_fault env = None"
    using that by (simp add: initialize_def load)
  show "int (length ?k) = ?n"
    if "0 \<le> ?n \<and> ?n \<le> 2147483647 \<and> length (b64_encode b64 ?k) \<le> maxLength
        \<and> key_write_fault env = None"
    using that by simp
  show "initialize b64 rng maxLength env m kf = Inl (EncryptionError INIT_FAILED)"
    if "?n < 0 \<or> 2147483647 < ?n \<or> maxLength < length (b64_encode b64 ?k)
        \<or> key_write_fault env \<noteq> None"
    using that by (auto simp: initialize_def load split: option.splits)
next
  assume "\<exists>txt e. kf = Some txt \<and> e \<noteq> ENOENT \<and>
        (access_fault env = Some e \<or> (access_fault env = None \<and> read_fault env = Some e))"
  then show "initialize b64 rng maxLength env m kf = Inl (EncryptionError INIT_FAILED)"
    by (auto simp: initialize_def loadOrCreateKey_def fs_access_def fs_readFile_def
          createKey_rethrow)
qed

theorem initialize_key_witness:
  "initialize nodeBase64 exampleRng kStringMaxLength noKeyFaults freshManager None
     = Inr (freshManager\<lparr>key := freshKey\<rparr>, Some freshKeyText) \<and>
   freshKey = map exampleRng [0..<32] \<and>
   int (length freshKey) = keySize (config freshManager) \<and>
   int (length (b64_decode nodeBase64 (js_trim shortKeyText)))
     \<noteq> keySize (config freshManager) \<and>
   initialize nodeBase64 exampleRng kStringMaxLength noKeyFaults freshManager
       (Some shortKeyText)
     = Inr (freshManager\<lparr>key := freshKey\<rparr>, Some freshKeyText) \<and>
   initialize nodeBase64 exampleRng kStringMaxLength (noKeyFaults\<lparr>key_write_fault := Some EACCES\<rparr>)
       freshManager None
     = Inl (EncryptionError INIT_FAILED) \<and>
   keySize (config hugeKeyManager) = 2147483648 \<and>
   initialize nodeBase64 exampleRng kStringMaxLength noKeyFaults hugeKeyManager None
     = Inl (EncryptionError INIT_FAILED) \<and>
   initialize nodeBase64 exampleRng kStringMaxLength (noKeyFaults\<lparr>read_fault := Some EISDIR\<rparr>)
       freshManager (Some freshKeyText)
     = Inl (EncryptionError INIT_FAILED)"
proof -
  note w = initialize_key [where rng = exampleRng and maxLength = kStringMaxLength]
  have n: "keySize (config freshManager) = 32"
    by (simp add: freshManager_def newEncryptionManager_def)
  have nh: "keySize (config hugeKeyManager) = 2147483648"
    by (simp add: hugeKeyManager_def newEncryptionManager_def)
  have fits: "length freshKeyText \<le> kStringMaxLength"
    by (simp add: freshKeyText_def kStringMaxLength_def)
  have len: "length freshKey = 32" by (simp add: freshKey_def)
  have short: "int (length (b64_decode nodeBase64 (js_trim shortKeyText)))
                 \<noteq> keySize (config freshManager)"
    by (simp add: short_key_file n)
  have 1: "initialize nodeBase64 exampleRng kStringMaxLength noKeyFaults freshManager None
     = Inr (freshManager\<lparr>key := freshKey\<rparr>, Some freshKeyText)
     \<and> int (length freshKey) = keySize (config freshManager)"
    using w [of noKeyFaults None nodeBase64 freshManager] fits
    by (simp add: noKeyFaults_def n freshKey_random freshKey_base64 len)
  have 2: "initialize nodeBase64 exampleRng kStringMaxLength noKeyFaults freshManager
       (Some shortKeyText)
     = Inr (freshManager\<lparr>key := freshKey\<rparr>, Some freshKeyText)"
    using w [of noKeyFaults "Some shortKeyText" nodeBase64 freshManager] short fits
    by (simp add: noKeyFaults_def n freshKey_random freshKey_base64 len)
  have 3: "initialize nodeBase64 exampleRng kStringMaxLength
       (noKeyFaults\<lparr>key_write_fault := Some EACCES\<rparr>) freshManager None
     = Inl (EncryptionError INIT_FAILED)"
    using w [of "noKeyFaults\<lparr>key_write_fault := Some EACCES\<rparr>" None nodeBase64 freshManager]
    by (simp add: noKeyFaults_def)
  have 4: "initialize nodeBase64 exampleRng kStringMaxLength noKeyFaults hugeKeyManager None
     = Inl (EncryptionError INIT_FAILED)"
    using w [of noKeyFaults None nodeBase64 hugeKeyManager]
    by (simp add: noKeyFaults_def nh)
  have 5: "initialize nodeBase64 exampleRng kStringMaxLength
       (noKeyFaults\<lparr>read_fault := Some EISDIR\<rparr>) freshManager (Some freshKeyText)
     = Inl (EncryptionError INIT_FAILED)"
    using w [of "noKeyFaults\<lparr>read_fault := Some EISDIR\<rparr>" "Some freshKeyText" nodeBase64
          freshManager]
    by (simp add: noKeyFaults_def)
  show ?thesis using 1 2 3 4 5 short nh freshKey_random by simp
qed

text \<open>
  Counterexample to C3 as stated: with a configured key size of \<open>2 ^ 31\<close>, an absent key
  file, and likewise a key file of another length, make \<open>initialize\<close> fail instead of
  generating a key; so does a key size of \<open>2 ^ 30\<close>, whose base64 text is longer than the
  longest string; and so does a key file that cannot be written.
\<close>

theorem initialize_refuses_key:
  "keySize (config hugeKeyManager) = 2147483648 \<and>
   initialize nodeBase64 exampleRng kStringMaxLength noKeyFaults hugeKeyManager None
     = Inl (EncryptionError INIT_FAILED) \<and>
   initialize nodeBase64 exampleRng kStringMaxLength noKeyFaults hugeKeyManager
       (Some shortKeyText)
     = Inl (EncryptionError INIT_FAILED) \<and>
   keySize (config bigKeyManager) = 1073741824 \<and>
   initialize nodeBase64 exampleRng kStringMaxLength noKeyFaults bigKeyManager None
     = Inl (EncryptionError INIT_FAILED) \<and>
   initialize nodeBase64 exampleRng kStringMaxLength (noKeyFaults\<lparr>key_write_fault := Some EACCES\<rparr>)
       freshManager None
     = Inl (EncryptionError INIT_FAILED)"
  by (simp add: initialize_huge_key initialize_huge_key_short_file initialize_big_key
        initialize_write_fault)
     (simp add: hugeKeyManager_def bigKeyManager_def newEncryptionManager_def)

section \<open>Properties of the privacy detector\<close>

subsection \<open>Text without tokens\<close>

lemma white_space_no_word_char: "isWhiteSpace c \<Longrightarrow> \<not> isWordChar c"
  by (auto simp: isWhiteSpace_def isWordChar_def)

lemma tokens_splitPieces:
  "filter (\<lambda>piece. piece \<noteq> []) (splitPieces inRun piece segment) = []
     \<longleftrightarrow> piece = [] \<and> (\<forall>c\<in>set segment. isWhiteSpace c)"
proof (induction segment arbitrary: inRun piece)
  case Nil
  show ?case by simp
next
  case (Cons c cs)
  show ?case
  proof (cases "isWhiteSpace c")
    case True
    show ?thesis
    proof (cases inRun)
      case True
      with \<open>isWhiteSpace c\<close> show ?thesis using Cons.IH [of True piece] by simp
    next
      case False
      with \<open>isWhiteSpace c\<close> show ?thesis using Cons.IH [of True "[]"] by simp
    qed
  next
    case False
    then show ?thesis using Cons.IH [of False "piece @ [c]"] by simp
  qed
qed

lemma no_tokens_iff: "tokens segment = [] \<longleftrightarrow> (\<forall>c\<in>set segment. isWhiteSpace c)"
  by (simp add: tokens_def splitWhiteSpace_def tokens_splitPieces)

lemma splitPieces_nonempty: "splitPieces inRun piece segment \<noteq> []"
  by (induction segment arbitrary: inRun piece) simp_all

lemma wordCount_positive: "0 < length (splitWhiteSpace segment)"
  by (simp add: splitWhiteSpace_def splitPieces_nonempty)

lemma wholeWord_needs_boundary:
  "\<not> atWordBoundary pos \<Longrightarrow> rx_match uc (wholeWord ws) pos = []"
  by (simp add: wholeWord_def)

lemma not_at_boundary:
  assumes "\<forall>c\<in>set segment. isWhiteSpace c"
      and "prev = None \<or> (\<exists>c. prev = Some c \<and> isWhiteSpace c)"
  shows "\<not> atWordBoundary (prev, segment)"
proof -
  have "\<not> (case prev of None \<Rightarrow> False | Some c \<Rightarrow> isWordChar c)"
    using assms(2) by (auto simp: white_space_no_word_char)
  moreover have "\<not> (case segment of [] \<Rightarrow> False | c # cs \<Rightarrow> isWordChar c)"
    using assms(1) by (cases segment) (auto simp: white_space_no_word_char)
  ultimately show ?thesis by (simp add: atWordBoundary_def)
qed

lemma rx_count_white_space:
  assumes "\<forall>c\<in>set segment. isWhiteSpace c"
      and "prev = None \<or> (\<exists>c. prev = Some c \<and> isWhiteSpace c)"
  shows "rx_count uc (wholeWord ws) prev segment skip = 0"
  using assms
proof (induction segment arbitrary: prev skip)
  case Nil
  have "rx_match uc (wholeWord ws) (prev, []) = []"
    by (rule wholeWord_needs_boundary [OF not_at_boundary]) (use Nil in simp_all)
  then show ?case by simp
next
  case (Cons c cs)
  have c: "isWhiteSpace c" and cs: "\<forall>c\<in>set cs. isWhiteSpace c" using Cons.prems(1) by simp_all
  have next0: "rx_count uc (wholeWord ws) (Some c) cs k = 0" for k
    by (rule Cons.IH [OF cs]) (simp add: c)
  have "rx_match uc (wholeWord ws) (prev, c # cs) = []"
    by (rule wholeWord_needs_boundary [OF not_at_boundary [OF Cons.prems]])
  then show ?case by (simp add: next0)
qed

lemma matchCount_white_space:
  "\<forall>c\<in>set segment. isWhiteSpace c \<Longrightarrow> matchCount uc (wholeWord ws) segment = 0"
  by (simp add: matchCount_def rx_count_white_space)

lemma blankText_pieces: "splitWhiteSpace blankText = [[], []]"
  by (simp add: blankText_def splitWhiteSpace_def str_def isWhiteSpace_def)

text \<open>
  Claim C9. A segment without tokens, which is empty or holds white space only, has the
  introspection score 0 and the sensitivity score 0: both functions return a number for
  it.
\<close>

theorem scores_without_tokens:
  assumes "tokens segment = []"
  shows "calculateIntrospectionScore uc segment = 0 \<and> calculateSensitivityScore uc segment = 0"
proof -
  have ws: "\<forall>c\<in>set segment. isWhiteSpace c" using assms by (simp only: no_tokens_iff)
  have topics: "fold (\<lambda>pattern sum. sum + matchCount uc pattern segment) sensitiveTopics 0 = 0"
    by (simp add: sensitiveTopics_def matchCount_white_space [OF ws])
  have "calculateIntrospectionScore uc segment = 0"
    by (simp add: calculateIntrospectionScore_def matchCount_white_space [OF ws] Let_def)
  moreover have "calculateSensitivityScore uc segment = 0"
    by (simp add: calculateSensitivityScore_def topics matchCount_white_space [OF ws] Let_def)
  ultimately show ?thesis by simp
qed

theorem scores_without_tokens_witness:
  "tokens [] = [] \<and>
   calculateIntrospectionScore asciiOnly [] = 0 \<and> calculateSensitivityScore asciiOnly [] = 0 \<and>
   splitWhiteSpace blankText = [[], []] \<and> tokens blankText = [] \<and>
   calculateIntrospectionScore asciiOnly blankText = 0 \<and>
   calculateSensitivityScore asciiOnly blankText = 0"
proof -
  have t0: "tokens [] = []" by (simp add: tokens_def splitWhiteSpace_def)
  have t1: "tokens blankText = []" by (simp add: tokens_def blankText_pieces)
  show ?thesis
    using scores_without_tokens [OF t0, of asciiOnly] scores_without_tokens [OF t1, of asciiOnly]
      t0 t1 blankText_pieces
    by simp
qed

subsection \<open>The indicators\<close>

lemmas rx_eval = rx_test_def str_def canonicalize_def asciiOnly_def advance_def
  atWordBoundary_def isWhiteSpace_def isWordChar_def matchCount_def wholeWord_def Let_def upt_rec

lemma keepPattern_default: "keepPattern \<in> set DEFAULT_PRIVACY_INDICATORS"
  by (simp add: DEFAULT_PRIVACY_INDICATORS_def keepPattern_def)

lemma keepPattern_test: "rx_test asciiOnly keepPattern keepText"
  by (simp add: rx_eval keepPattern_def keepText_def)

lemma keepText_scores:
  "calculateIntrospectionScore asciiOnly keepText = 0"
  "calculateSensitivityScore asciiOnly keepText = 0"
  by (simp_all add: calculateIntrospectionScore_def calculateSensitivityScore_def
        sensitiveTopics_def rx_eval keepText_def)

lemma bareDetector_keepText: "\<not> isLikelyPrivate asciiOnly bareDetector keepText None None"
  by (simp add: isLikelyPrivate_def keepText_scores bareDetector_def defaultPrivacy_def)

lemma zebra_test: "rx_test asciiOnly (Lit (str ''a.b'')) zebraText"
  by (simp add: rx_eval zebraText_def)

text \<open>
  Claim C2. When a segment matches one of the patterns of an initialised detector, a
  default indicator or a custom pattern of the configuration (which matches as literal
  text), \<open>isLikelyPrivate\<close> returns true, whatever the two scores are and whether they
  are passed or computed, and whatever the thresholds are.
\<close>

theorem indicator_forces_private:
  assumes "pattern \<in> set DEFAULT_PRIVACY_INDICATORS
           \<or> (\<exists>patterns. customPatterns cfg = Some patterns \<and> pattern \<in> Lit ` set patterns)"
      and "rx_test uc pattern segment"
  shows "isLikelyPrivate uc (createPrivacyDetector cfg) segment introspectionScore sensitivityScore"
proof -
  have "pattern \<in> set (privacyPatterns (createPrivacyDetector cfg))"
    using assms(1) by (auto simp: createPrivacyDetector_def)
  then have "list_ex (\<lambda>pattern. rx_test uc pattern segment) (privacyPatterns (createPrivacyDetector cfg))"
    using assms(2) by (auto simp: list_ex_iff)
  then show ?thesis by (simp add: isLikelyPrivate_def)
qed

theorem indicator_forces_private_witness:
  "keepPattern \<in> set DEFAULT_PRIVACY_INDICATORS \<and> rx_test asciiOnly keepPattern keepText \<and>
   calculateIntrospectionScore asciiOnly keepText = 0 \<and>
   calculateSensitivityScore asciiOnly keepText = 0 \<and>
   isLikelyPrivate asciiOnly (createPrivacyDetector defaultPrivacy) keepText
     (Some (Num 0)) (Some (Num 0)) \<and>
   isLikelyPrivate asciiOnly (createPrivacyDetector defaultPrivacy) keepText None None \<and>
   isLikelyPrivate asciiOnly (createPrivacyDetector defaultPrivacy) keepText
     (Some NaN) (Some NegInfinity) \<and>
   \<not> isLikelyPrivate asciiOnly bareDetector keepText None None \<and>
   customPatterns zebraConfig = Some [str ''a.b''] \<and>
   rx_test asciiOnly (Lit (str ''a.b'')) zebraText \<and>
   isLikelyPrivate asciiOnly (createPrivacyDetector zebraConfig) zebraText
     (Some (Num 0)) (Some (Num 0))"
proof -
  have d: "keepPattern \<in> set DEFAULT_PRIVACY_INDICATORS
           \<or> (\<exists>patterns. customPatterns defaultPrivacy = Some patterns
                  \<and> keepPattern \<in> Lit ` set patterns)"
    using keepPattern_default by blast
  note w = indicator_forces_private [OF d keepPattern_test]
  have z: "customPatterns zebraConfig = Some [str ''a.b'']"
    by (simp add: zebraConfig_def)
  have c: "Lit (str ''a.b'') \<in> set DEFAULT_PRIVACY_INDICATORS
           \<or> (\<exists>patterns. customPatterns zebraConfig = Some patterns
                  \<and> Lit (str ''a.b'') \<in> Lit ` set patterns)"
    using z by simp
  note wz = indicator_forces_private [OF c zebra_test]
  show ?thesis
    using keepPattern_default keepPattern_test keepText_scores bareDetector_keepText z zebra_test
      w [of "Some (Num 0)" "Some (Num 0)"] w [of None None] w [of "Some NaN" "Some NegInfinity"]
      wz [of "Some (Num 0)" "Some (Num 0)"]
    by simp
qed

end
